theory Spec2Isabelle
  imports Complex_Main
begin

section \<open>Data model of the particle engine (src/script.js)\<close>

text \<open>
  Numbers of the script are IEEE doubles; they are modelled as \<^typ>\<open>real\<close>, so every
  statement below is about the arithmetic the code writes down, without rounding, NaN or
  infinities. \<open>Math.sin\<close>, \<open>Math.cos\<close>, \<open>Math.hypot\<close> and \<open>Math.PI\<close> are the functions
  \<^const>\<open>sin\<close>, \<^const>\<open>cos\<close>, \<^const>\<open>sqrt\<close> of a sum of squares and \<^const>\<open>pi\<close>.

  The fields of the object literals carry a prefix (\<open>px\<close> for \<open>p.x\<close>, \<open>rx\<close> for a ripple's
  \<open>x\<close>, \<open>fx\<close> for a flare's \<open>x\<close>) because a record field is a constant of the theory.
\<close>

datatype ptype = Dot | Petal | Dust | Leaf | Rain | Mist | Dewdrop | Snow | Ember

record particle =
  px :: real
  py :: real
  pvx :: real
  pvy :: real
  pr :: real
  pang :: real
  pspin :: real
  ptype :: ptype
  palpha :: real
  pcolor :: string
  pz :: real

record ripple =
  rx :: real
  ry :: real
  rr :: real
  ralpha :: real

record flare =
  fx :: real
  fy :: real
  fr :: real
  ft :: real
  fspeed :: real

text \<open>
  What the engine reads from outside itself: the reduced-motion flag (line 4), the
  checkbox \<open>particlesToggle.checked\<close>, the \<open>mouse\<close> object (line 143), the logical size
  of the canvas (line 17) and \<open>Math.random\<close>, given as the sequence of its results:
  \<open>random e k\<close> is what the \<open>k\<close>-th call returns.
\<close>

record env =
  prefersReduced :: bool
  particlesChecked :: bool
  mouseX :: real
  mouseY :: real
  mouseVX :: real
  mouseVY :: real
  logicalW :: real
  logicalH :: real
  random :: "nat \<Rightarrow> real"

text \<open>
  What is painted on the canvas since it was last cleared. The renderer's paths,
  gradients and the optional leaf images are not modelled: one entry per drawn flare,
  particle or ripple, with the position it is drawn at.
\<close>

datatype drawop =
    DFlare real real real
  | DParticle ptype real real
  | DRipple real real real real

text \<open>
  The closure variables of \<open>createParticleEngine\<close> (lines 155-157), and the host state
  the engine acts on: \<open>seed\<close> counts the calls of \<open>Math.random\<close> made so far, \<open>pending\<close>
  are the handles of the animation frame callbacks the host still has to run,
  \<open>nextHandle\<close> is the handle the next \<open>requestAnimationFrame\<close> returns, and \<open>drawn\<close> is
  the canvas. \<open>last_t\<close> is the variable \<open>last\<close>.
\<close>

record engine =
  parts :: "particle list"
  ripples :: "ripple list"
  flares :: "flare list"
  running :: bool
  mode :: string
  last_t :: real
  rafId :: "nat option"
  seed :: nat
  pending :: "nat list"
  nextHandle :: nat
  drawn :: "drawop list"

section \<open>Seasons and pool capacities\<close>

definition SEASONS :: "string list" where
  "SEASONS = [''spring'', ''summer'', ''monsoon'', ''autumn'', ''winter'', ''prewinter'']"

text \<open>
  The value of the property read \<open>maxCounts[mode]\<close> (line 158, 263): a number for the six
  own properties, an object or function for a name that the object literal inherits
  from \<open>Object.prototype\<close>, and \<open>undefined\<close> otherwise.
\<close>

datatype jsval = Number nat | Object | Undefined

definition objectPrototypeNames :: "string list" where
  "objectPrototypeNames =
     [''constructor'', ''toString'', ''toLocaleString'', ''valueOf'', ''hasOwnProperty'',
      ''isPrototypeOf'', ''propertyIsEnumerable'', ''__proto__'', ''__defineGetter__'',
      ''__defineSetter__'', ''__lookupGetter__'', ''__lookupSetter__'']"

definition maxCounts :: "string \<Rightarrow> jsval" where
  "maxCounts m =
     (if m = ''spring'' then Number 110
      else if m = ''summer'' then Number 100
      else if m = ''monsoon'' then Number 140
      else if m = ''autumn'' then Number 120
      else if m = ''winter'' then Number 90
      else if m = ''prewinter'' then Number 90
      else if m \<in> set objectPrototypeNames then Object
      else Undefined)"

definition truthy :: "jsval \<Rightarrow> bool" where
  "truthy v = (case v of Number n \<Rightarrow> n \<noteq> 0 | Object \<Rightarrow> True | Undefined \<Rightarrow> False)"

text \<open>\<open>maxCounts[mode] || 90\<close>\<close>

definition countOr90 :: "string \<Rightarrow> jsval" where
  "countOr90 m = (if truthy (maxCounts m) then maxCounts m else Number 90)"

text \<open>
  How often the body of \<open>for (let i = 0; i < count; i++)\<close> runs: \<open>i < count\<close> is false
  for every \<open>i\<close> when \<open>count\<close> is not a number (it converts to NaN).
\<close>

definition iterations :: "jsval \<Rightarrow> nat" where
  "iterations v = (case v of Number n \<Rightarrow> n | Object \<Rightarrow> 0 | Undefined \<Rightarrow> 0)"

section \<open>Entity factory\<close>

text \<open>\<open>rnd(a, b)\<close> (line 174), for the \<open>k\<close>-th call of \<open>Math.random\<close>, and \<open>clamp\<close> (line 175).\<close>

definition rnd :: "env \<Rightarrow> nat \<Rightarrow> real \<Rightarrow> real \<Rightarrow> real" where
  "rnd e k a b = random e k * (b - a) + a"

definition clamp :: "real \<Rightarrow> real \<Rightarrow> real \<Rightarrow> real" where
  "clamp v a b = max a (min b v)"

text \<open>The object literal of lines 178-182: five calls of \<open>Math.random\<close>, in field order.\<close>

definition baseParticle :: "env \<Rightarrow> nat \<Rightarrow> particle" where
  "baseParticle e k =
     \<lparr> px = rnd e k 0 (logicalW e), py = rnd e (k + 1) (- 60) (logicalH e + 60),
       pvx = 0, pvy = 0, pr = 1,
       pang = rnd e (k + 2) 0 (pi * 2), pspin = rnd e (k + 3) (- 0.05) 0.05,
       ptype = Dot, palpha = 1, pcolor = ''#fff'', pz = rnd e (k + 4) 0.4 1.2 \<rparr>"

text \<open>
  \<open>newParticle\<close> (lines 177-247) for the current \<open>mode\<close>, started when \<open>k\<close> calls of
  \<open>Math.random\<close> have been made; it returns the particle and the new count of calls.
\<close>

definition newParticle :: "env \<Rightarrow> string \<Rightarrow> nat \<Rightarrow> particle \<times> nat" where
  "newParticle e m k0 =
     (let p = baseParticle e k0; k = k0 + 5 in
      if m = ''spring'' then
        (p\<lparr> ptype := Petal, pr := rnd e k 3.5 7.5, pvx := rnd e (k + 1) (- 0.28) 0.35,
            pvy := rnd e (k + 2) 0.18 0.55, pcolor := ''rgba(255,140,170,0.96)'',
            pspin := rnd e (k + 3) (- 0.06) 0.06 \<rparr>, k + 4)
      else if m = ''summer'' then
        (if \<not> random e k < 0.12 then
           (p\<lparr> ptype := Dust, pr := rnd e (k + 1) 0.8 2.8, pvx := rnd e (k + 2) 0.05 0.45,
               pvy := rnd e (k + 3) (- 0.02) 0.18, pcolor := ''rgba(255,205,110,0.9)'',
               palpha := rnd e (k + 4) 0.35 0.9 \<rparr>, k + 5)
         else
           (p\<lparr> ptype := Leaf, pr := rnd e (k + 1) 6 12, pvx := rnd e (k + 2) 0.1 0.6,
               pvy := rnd e (k + 3) 0.05 0.25, pcolor := ''rgba(255,180,90,0.95)'',
               pspin := rnd e (k + 4) (- 0.2) 0.2 \<rparr>, k + 5))
      else if m = ''monsoon'' then
        (p\<lparr> ptype := Rain, pr := rnd e k 1.0 1.6, pvx := rnd e (k + 1) (- 0.25) 0.2,
            pvy := rnd e (k + 2) 0.65 1.4, pcolor := ''rgba(170,210,240,0.98)'' \<rparr>, k + 3)
      else if m = ''autumn'' then
        (p\<lparr> ptype := Leaf, pr := rnd e k 6 13, pvx := rnd e (k + 1) (- 0.6) 0.45,
            pvy := rnd e (k + 2) 0.25 0.7, pcolor := ''rgba(255,170,80,0.98)'',
            pspin := rnd e (k + 3) (- 0.3) 0.3 \<rparr>, k + 4)
      else if m = ''prewinter'' then
        (if random e k < 0.25 then
           (p\<lparr> ptype := Mist, pr := rnd e (k + 1) 60 140, pvx := rnd e (k + 2) 0.02 0.12,
               pvy := rnd e (k + 3) (- 0.02) 0.04, palpha := rnd e (k + 4) 0.05 0.12 \<rparr>, k + 5)
         else
           (p\<lparr> ptype := Dewdrop, pr := rnd e (k + 1) 1.4 3.6, pvx := rnd e (k + 2) (- 0.2) 0.2,
               pvy := rnd e (k + 3) 0.08 0.35, pcolor := ''rgba(220,240,255,0.96)'' \<rparr>, k + 4))
      else
        (if \<not> random e k < 0.12 then
           (p\<lparr> ptype := Snow, pr := rnd e (k + 1) 1.4 3.8, pvx := rnd e (k + 2) (- 0.2) 0.2,
               pvy := rnd e (k + 3) 0.08 0.32, pcolor := ''rgba(240,248,255,0.96)'' \<rparr>, k + 4)
         else
           (p\<lparr> ptype := Ember, pr := rnd e (k + 1) 1.2 2.4, pvx := rnd e (k + 2) (- 0.05) 0.05,
               pvy := rnd e (k + 3) (- 0.06) (- 0.02), pcolor := ''rgba(255,120,60,0.9)'' \<rparr>,
            k + 4)))"

text \<open>
  \<open>init(count)\<close> (lines 249-252): the loop pushes \<open>n\<close> new particles, the first made
  first in the array.
\<close>

fun initLoop :: "env \<Rightarrow> string \<Rightarrow> nat \<Rightarrow> nat \<Rightarrow> particle list \<times> nat" where
  "initLoop e m 0 k = ([], k)"
| "initLoop e m (Suc n) k =
     (let (p, k1) = newParticle e m k; (ps, k2) = initLoop e m n k1 in (p # ps, k2))"

definition init :: "env \<Rightarrow> jsval \<Rightarrow> engine \<Rightarrow> engine" where
  "init e count s =
     (let (ps, k) = initLoop e (mode s) (iterations count) (seed s)
      in s\<lparr> parts := ps, seed := k \<rparr>)"

section \<open>Mode switch\<close>

text \<open>The loop of lines 269-277: \<open>n\<close> flares, five calls of \<open>Math.random\<close> each.\<close>

fun flareLoop :: "env \<Rightarrow> nat \<Rightarrow> nat \<Rightarrow> flare list \<times> nat" where
  "flareLoop e 0 k = ([], k)"
| "flareLoop e (Suc n) k =
     (let f = \<lparr> fx = rnd e k 0 (logicalW e), fy = rnd e (k + 1) 0 (logicalH e * 0.6),
                fr = rnd e (k + 2) 120 240, ft = rnd e (k + 3) 0 (pi * 2),
                fspeed = rnd e (k + 4) 0.0002 0.0005 \<rparr>;
          (fs, k') = flareLoop e n (k + 5)
      in (f # fs, k'))"

text \<open>
  \<open>setMode(m)\<close> (lines 261-279). \<open>n = 2 + Math.floor(rnd(0, 2))\<close> is an integer; the loop
  \<open>i < n\<close> runs \<open>nat n\<close> times. The variable \<open>ripples\<close> is not assigned.
\<close>

definition setMode :: "env \<Rightarrow> string \<Rightarrow> engine \<Rightarrow> engine" where
  "setMode e m s =
     (let s1 = init e (countOr90 m) (s\<lparr> mode := m \<rparr>);
          s2 = s1\<lparr> flares := [] \<rparr>
      in if m = ''summer'' then
           (let n = 2 + \<lfloor>rnd e (seed s2) 0 2\<rfloor>;
                (fs, k) = flareLoop e (nat n) (seed s2 + 1)
            in s2\<lparr> flares := fs, seed := k \<rparr>)
         else s2)"

section \<open>One tick\<close>

text \<open>
  Mouse wind interaction (lines 319-323). \<open>Math.hypot(dx, dy) || 1\<close> is \<open>1\<close> when the
  distance is \<open>0\<close>.
\<close>

definition dist :: "env \<Rightarrow> particle \<Rightarrow> real" where
  "dist e p =
     (let h = sqrt ((px p - mouseX e)\<^sup>2 + (py p - mouseY e)\<^sup>2) in if h = 0 then 1 else h)"

definition influence :: "env \<Rightarrow> particle \<Rightarrow> real" where
  "influence e p =
     (if particlesChecked e \<and> \<not> prefersReduced e then max 0 (1 - dist e p / 180) else 0)"

definition windX :: "env \<Rightarrow> particle \<Rightarrow> real" where
  "windX e p =
     (- (px p - mouseX e) / dist e p) * 0.04 * influence e p + (mouseVX e * 0.002 * influence e p)"

definition windY :: "env \<Rightarrow> particle \<Rightarrow> real" where
  "windY e p =
     (- (py p - mouseY e) / dist e p) * 0.02 * influence e p + (mouseVY e * 0.002 * influence e p)"

definition wind :: "env \<Rightarrow> particle \<Rightarrow> particle" where
  "wind e p = p\<lparr> pvx := pvx p + windX e p, pvy := pvy p + windY e p \<rparr>"

text \<open>Season forces (lines 326-353); an unknown mode takes no branch.\<close>

definition seasonForce :: "env \<Rightarrow> string \<Rightarrow> real \<Rightarrow> real \<Rightarrow> particle \<Rightarrow> particle" where
  "seasonForce e m now dt p =
     (if m = ''spring'' then
        p\<lparr> pvx := pvx p + sin (pang p * 0.7 + now * 0.0005) * 0.01,
           pvy := pvy p + 0.006 * (dt / 16),
           pang := pang p + pspin p * 0.01 \<rparr>
      else if m = ''summer'' then
        p\<lparr> pvx := pvx p + sin ((py p / logicalH e * 6) + now * 0.0008) * 0.02,
           pvy := pvy p + 0.002 * (dt / 16) \<rparr>
      else if m = ''monsoon'' then
        p\<lparr> pvx := pvx p + sin (now * 0.001 + (px p / logicalW e) * 12) * 0.06,
           pvy := pvy p + 0.02 * (dt / 16) \<rparr>
      else if m = ''autumn'' then
        p\<lparr> pvx := pvx p + sin ((py p / logicalH e * 8) + pang p) * 0.035,
           pvy := pvy p + 0.008 * (dt / 16),
           pang := pang p + pspin p * 0.018 \<rparr>
      else if m = ''prewinter'' then
        (if ptype p = Mist then p\<lparr> pvx := pvx p + 0.004 \<rparr>
         else p\<lparr> pvy := pvy p + 0.004 * (dt / 16) \<rparr>)
      else if m = ''winter'' then
        (let q = (if ptype p = Ember then p\<lparr> pvy := pvy p - 0.006 * (dt / 16) \<rparr>
                  else p\<lparr> pvy := pvy p + 0.004 * (dt / 16) \<rparr>)
         in q\<lparr> pvx := pvx q + sin (now * 0.0006 + py q * 0.02) * 0.006 \<rparr>)
      else p)"

text \<open>Damping and integration (lines 356-359).\<close>

definition damp :: "particle \<Rightarrow> particle" where
  "damp p = p\<lparr> pvx := pvx p * 0.995, pvy := pvy p * 0.997 \<rparr>"

definition integrate :: "real \<Rightarrow> particle \<Rightarrow> particle" where
  "integrate dt p =
     p\<lparr> px := px p + pvx p * (dt / 16) * pz p, py := py p + pvy p * (dt / 16) * pz p \<rparr>"

text \<open>The physics of one particle in one tick: lines 319-359 in their order.\<close>

definition movePart :: "env \<Rightarrow> string \<Rightarrow> real \<Rightarrow> real \<Rightarrow> particle \<Rightarrow> particle" where
  "movePart e m now dt p = integrate dt (damp (seasonForce e m now dt (wind e p)))"

text \<open>\<open>addRipple\<close> (lines 281-283).\<close>

definition addRipple :: "real \<Rightarrow> real \<Rightarrow> engine \<Rightarrow> engine" where
  "addRipple x y s = s\<lparr> ripples := ripples s @ [\<lparr> rx = x, ry = y, rr = 2, ralpha = 0.35 \<rparr>] \<rparr>"

text \<open>
  Draw (lines 362-449): the particle is painted at its new position; a leaf calls
  \<open>Math.random\<close> once to pick its image, a rain drop below \<open>logicalH - 2\<close> adds a ripple
  (lines 409-411).
\<close>

definition drawPart :: "env \<Rightarrow> particle \<Rightarrow> engine \<Rightarrow> engine" where
  "drawPart e q s =
     (let s1 = s\<lparr> drawn := drawn s @ [DParticle (ptype q) (px q) (py q)] \<rparr>
      in if ptype q = Leaf then s1\<lparr> seed := seed s1 + 1 \<rparr>
         else if ptype q = Rain then
           (if py q > logicalH e - 2 then addRipple (px q) (logicalH e - 3) s1 else s1)
         else s1)"

text \<open>Recycle particles that go off-screen (lines 452-457).\<close>

definition offscreen :: "env \<Rightarrow> particle \<Rightarrow> bool" where
  "offscreen e q =
     (py q > logicalH e + 80 \<or> px q < - 140 \<or> px q > logicalW e + 140 \<or> py q < - 140)"

text \<open>
  The replacement built at lines 454-456 when \<open>k0\<close> calls of \<open>Math.random\<close> have been
  made: a new particle of the current mode, moved to a random place above the top edge.
\<close>

definition fresh :: "env \<Rightarrow> string \<Rightarrow> nat \<Rightarrow> particle \<times> nat" where
  "fresh e m k0 =
     (let (n, k) = newParticle e m k0
      in (n\<lparr> px := random e k * logicalW e, py := - 10 - random e (k + 1) * 40 \<rparr>, k + 2))"

definition recycle :: "env \<Rightarrow> engine \<Rightarrow> particle \<times> engine" where
  "recycle e s = (let (n, k) = fresh e (mode s) (seed s) in (n, s\<lparr> seed := k \<rparr>))"

text \<open>
  The body of the loop \<open>for (const p of parts)\<close> for one slot: the particle of the slot is
  moved and drawn, and the slot then holds it or, when it is off-screen, its replacement
  (\<open>parts.indexOf(p)\<close> is the slot's own index, the objects of the array being distinct).
\<close>

definition slot :: "env \<Rightarrow> real \<Rightarrow> real \<Rightarrow> particle \<Rightarrow> engine \<Rightarrow> particle \<times> engine" where
  "slot e now dt p s =
     (let q = movePart e (mode s) now dt p; s1 = drawPart e q s
      in if offscreen e q then recycle e s1 else (q, s1))"

fun partsLoop ::
  "env \<Rightarrow> real \<Rightarrow> real \<Rightarrow> particle list \<Rightarrow> engine \<Rightarrow> particle list \<times> engine" where
  "partsLoop e now dt [] s = ([], s)"
| "partsLoop e now dt (p # ps) s =
     (let (q, s1) = slot e now dt p s; (qs, s2) = partsLoop e now dt ps s1 in (q # qs, s2))"

text \<open>\<open>drawFlare\<close> (lines 285-299): what is painted, and the flare with its phase advanced.\<close>

definition drawFlare :: "env \<Rightarrow> flare \<Rightarrow> drawop \<times> flare" where
  "drawFlare e f =
     (DFlare (fx f + cos (ft f) * 120) (fy f + sin (ft f) * 60) (fr f),
      f\<lparr> ft := ft f + fspeed f * (if prefersReduced e then 0 else 1) \<rparr>)"

definition drawFlares :: "env \<Rightarrow> engine \<Rightarrow> engine" where
  "drawFlares e s =
     s\<lparr> drawn := drawn s @ map (\<lambda>f. fst (drawFlare e f)) (flares s),
        flares := map (\<lambda>f. snd (drawFlare e f)) (flares s) \<rparr>"

text \<open>
  Draw ripples (lines 461-471). The loop runs from the last index down, so the tail of
  the list is handled before its head; \<open>splice(i, 1)\<close> removes the ripple just aged.
\<close>

fun ripplesLoop :: "ripple list \<Rightarrow> drawop list \<Rightarrow> ripple list \<times> drawop list" where
  "ripplesLoop [] d = ([], d)"
| "ripplesLoop (rp # rest) d =
     (let (rest', d1) = ripplesLoop rest d;
          d2 = d1 @ [DRipple (rx rp) (ry rp) (rr rp) (ralpha rp)];
          rp' = rp\<lparr> rr := rr rp + 0.9, ralpha := ralpha rp - 0.015 \<rparr>
      in (if ralpha rp' \<le> 0 then rest' else rp' # rest', d2))"

text \<open>\<open>requestAnimationFrame(step)\<close> and \<open>cancelAnimationFrame(h)\<close> of the host.\<close>

definition requestAnimationFrame :: "engine \<Rightarrow> engine" where
  "requestAnimationFrame s =
     s\<lparr> rafId := Some (nextHandle s), pending := pending s @ [nextHandle s],
        nextHandle := nextHandle s + 1 \<rparr>"

definition cancelAnimationFrame :: "nat \<Rightarrow> engine \<Rightarrow> engine" where
  "cancelAnimationFrame h s = s\<lparr> pending := filter (\<lambda>g. g \<noteq> h) (pending s) \<rparr>"

text \<open>The elapsed time of a tick (line 302).\<close>

definition elapsed :: "real \<Rightarrow> engine \<Rightarrow> real" where
  "elapsed now s = min 40 (now - last_t s)"

text \<open>\<open>step(now)\<close> (lines 301-475).\<close>

definition step :: "env \<Rightarrow> real \<Rightarrow> engine \<Rightarrow> engine" where
  "step e now s =
     (let dt = elapsed now s; s1 = s\<lparr> last_t := now \<rparr>
      in if \<not> running s1 then s1\<lparr> rafId := None \<rparr>
         else
           (let s2 = s1\<lparr> drawn := [] \<rparr>;
                s3 = (if mode s2 = ''summer'' \<and> flares s2 \<noteq> [] then drawFlares e s2 else s2);
                (ps, s4) = partsLoop e now dt (parts s3) s3;
                s5 = s4\<lparr> parts := ps \<rparr>;
                (rs, d) = ripplesLoop (ripples s5) (drawn s5);
                s6 = s5\<lparr> ripples := rs, drawn := d \<rparr>
            in requestAnimationFrame s6))"

section \<open>Engine controller\<close>

text \<open>\<open>pause()\<close> (lines 477-484); \<open>if (rafId)\<close> is false for \<open>null\<close> and for the handle \<open>0\<close>.\<close>

definition pause :: "engine \<Rightarrow> engine" where
  "pause s =
     (let s1 = s\<lparr> running := False \<rparr>;
          s2 = (case rafId s1 of
                  None \<Rightarrow> s1
                | Some h \<Rightarrow> if h \<noteq> 0 then (cancelAnimationFrame h s1)\<lparr> rafId := None \<rparr> else s1)
      in s2\<lparr> drawn := [] \<rparr>)"

text \<open>\<open>resume()\<close> (lines 486-492); \<open>now\<close> is the value of \<open>performance.now()\<close>.\<close>

definition resume :: "env \<Rightarrow> real \<Rightarrow> engine \<Rightarrow> engine" where
  "resume e now s =
     (if \<not> prefersReduced e \<and> \<not> running s
      then requestAnimationFrame (s\<lparr> running := True, last_t := now \<rparr>)
      else s)"

text \<open>\<open>reflow()\<close> (lines 254-259).\<close>

definition reflowPart :: "env \<Rightarrow> particle \<Rightarrow> particle" where
  "reflowPart e p =
     (let p1 = p\<lparr> px := clamp (px p / logicalW e * logicalW e) 0 (logicalW e) \<rparr>
      in p1\<lparr> py := clamp (py p1 / logicalH e * logicalH e) (- 50) (logicalH e + 50) \<rparr>)"

definition reflow :: "env \<Rightarrow> engine \<Rightarrow> engine" where
  "reflow e s = s\<lparr> parts := map (reflowPart e) (parts s) \<rparr>"

text \<open>
  \<open>createParticleEngine(initialMode)\<close> (lines 154-498) in a host that has not been asked
  for an animation frame yet (its first handle is \<open>1\<close>); \<open>now\<close> is the value of
  \<open>performance.now()\<close>. \<open>initialMode || 'prewinter'\<close> replaces the empty string.
\<close>

definition createParticleEngine :: "env \<Rightarrow> string \<Rightarrow> real \<Rightarrow> engine" where
  "createParticleEngine e initialMode now =
     (let s0 = \<lparr> parts = [], ripples = [], flares = [], running = True,
                 mode = (if initialMode = [] then ''prewinter'' else initialMode),
                 last_t = now, rafId = None, seed = 0, pending = [], nextHandle = 1,
                 drawn = [] \<rparr>
      in requestAnimationFrame (setMode e (mode s0) s0))"

section \<open>The host's events\<close>

text \<open>
  What can happen to an engine once it is built: the host runs the oldest pending
  animation frame callback (every callback the engine registers is \<open>step\<close>) with a time
  stamp, or a caller uses one of the four operations the engine returns (line 497). The
  environment is read anew at every event.
\<close>

datatype event = Frame real | Pause | Resume real | SetMode string | Reflow

definition frame :: "env \<Rightarrow> real \<Rightarrow> engine \<Rightarrow> engine" where
  "frame e now s = (case pending s of [] \<Rightarrow> s | h # hs \<Rightarrow> step e now (s\<lparr> pending := hs \<rparr>))"

fun apply_event :: "env \<Rightarrow> event \<Rightarrow> engine \<Rightarrow> engine" where
  "apply_event e (Frame now) s = frame e now s"
| "apply_event e Pause s = pause s"
| "apply_event e (Resume now) s = resume e now s"
| "apply_event e (SetMode m) s = setMode e m s"
| "apply_event e Reflow s = reflow e s"

fun run :: "(env \<times> event) list \<Rightarrow> engine \<Rightarrow> engine" where
  "run [] s = s"
| "run ((e, ev) # evs) s = run evs (apply_event e ev s)"

section \<open>Surface manager\<close>

text \<open>
  \<open>resizeCanvas\<close> (lines 120-129), as far as the engine sees it: the logical size, from
  \<open>window.innerWidth\<close> and \<open>window.innerHeight\<close>. The device pixel ratio and the backing
  buffer are not modelled. The resize listener (lines 134-140) calls it and then \<open>reflow\<close>.
\<close>

definition resizeCanvas :: "real \<Rightarrow> real \<Rightarrow> env \<Rightarrow> env" where
  "resizeCanvas innerWidth innerHeight e =
     e\<lparr> logicalW := max 1 (of_int \<lfloor>innerWidth\<rfloor>), logicalH := max 1 (of_int \<lfloor>innerHeight\<rfloor>) \<rparr>"

section \<open>Auxiliary notions for the properties\<close>

text \<open>
  The engine's bookkeeping of animation frames agrees with the host's: \<open>rafId\<close> is
  \<open>null\<close>, the engine is paused and no callback is pending, or \<open>rafId\<close> is the (non-zero)
  handle of the one pending callback and the engine is running.
\<close>

definition sched_ok :: "engine \<Rightarrow> bool" where
  "sched_ok s =
     (0 < nextHandle s \<and>
      (case rafId s of
         None \<Rightarrow> \<not> running s \<and> pending s = []
       | Some h \<Rightarrow> running s \<and> 0 < h \<and> pending s = [h]))"

text \<open>
  The state in which a running tick enters its loop over the pool: \<open>last\<close> is set, the
  canvas is cleared and the flares of summer are drawn (lines 303-315).
\<close>

definition cleared :: "env \<Rightarrow> real \<Rightarrow> engine \<Rightarrow> engine" where
  "cleared e now s =
     (let s2 = s\<lparr> last_t := now, drawn := [] \<rparr>
      in if mode s2 = ''summer'' \<and> flares s2 \<noteq> [] then drawFlares e s2 else s2)"

text \<open>
  A ripple after one pass of the ripple loop (lines 468-469), the ripple a rain drop adds
  (line 410 with \<open>addRipple\<close>), the test under which a drawn particle adds one (lines 399
  and 409), and the events that switch the mode.
\<close>

definition aged :: "ripple \<Rightarrow> ripple" where
  "aged rp = rp\<lparr> rr := rr rp + 0.9, ralpha := ralpha rp - 0.015 \<rparr>"

definition splash :: "env \<Rightarrow> particle \<Rightarrow> ripple" where
  "splash e q = \<lparr> rx = px q, ry = logicalH e - 3, rr = 2, ralpha = 0.35 \<rparr>"

definition hits :: "env \<Rightarrow> particle \<Rightarrow> bool" where
  "hits e q = (ptype q = Rain \<and> py q > logicalH e - 2)"

definition is_setMode :: "event \<Rightarrow> bool" where
  "is_setMode ev = (case ev of SetMode m \<Rightarrow> True | _ \<Rightarrow> False)"

section \<open>Concrete inputs\<close>

text \<open>
  An 800 by 600 canvas with the pointer resting in its top left corner, particle
  interaction switched on, and a \<open>Math.random\<close> that always returns one half.
\<close>

definition env0 :: env where
  "env0 = \<lparr> prefersReduced = False, particlesChecked = True, mouseX = 0, mouseY = 0,
            mouseVX = 0, mouseVY = 0, logicalW = 800, logicalH = 600,
            random = (\<lambda>k. 1 / 2) \<rparr>"

text \<open>
  The same environment with a \<open>Math.random\<close> that always returns 0.95, and the engine
  built there for the monsoon, after its first tick.
\<close>

definition downpour :: env where
  "downpour = env0\<lparr> random := (\<lambda>k. 0.95) \<rparr>"

definition soaked :: engine where
  "soaked = step downpour 16 (createParticleEngine downpour ''monsoon'' 0)"





text \<open>
  A rain drop one unit above the bottom edge of the canvas, an engine in monsoon mode that
  holds only this drop, and the same engine with the drop 85 units below the bottom edge.
\<close>

definition drop :: particle where
  "drop = \<lparr> px = 400, py = 599, pvx = 0, pvy = 1, pr = 1.2, pang = 1, pspin = 0.01,
            ptype = Rain, palpha = 1, pcolor = ''rgba(170,210,240,0.98)'', pz = 1 \<rparr>"

definition puddle :: engine where
  "puddle = \<lparr> parts = [drop], ripples = [], flares = [], running = True, mode = ''monsoon'',
              last_t = 0, rafId = Some 1, seed = 0, pending = [1], nextHandle = 2,
              drawn = [] \<rparr>"

definition sunk :: engine where
  "sunk = puddle\<lparr> parts := [drop\<lparr> py := 685 \<rparr>] \<rparr>"

section \<open>Mode switch: pool size, flares and ripples\<close>

lemma initLoop_length: "length (fst (initLoop e m n k)) = n"
  by (induction n arbitrary: k) (simp_all add: Let_def split_beta)

lemma init_fields:
  "ripples (init e c s) = ripples s" "flares (init e c s) = flares s"
  "running (init e c s) = running s" "mode (init e c s) = mode s"
  "last_t (init e c s) = last_t s" "rafId (init e c s) = rafId s"
  "pending (init e c s) = pending s" "nextHandle (init e c s) = nextHandle s"
  "drawn (init e c s) = drawn s"
  by (simp_all add: init_def split_beta)

lemma flareLoop_length: "length (fst (flareLoop e n k)) = n"
  by (induction n arbitrary: k) (simp_all add: Let_def split_beta)

lemma setMode_fields:
  "ripples (setMode e m s) = ripples s"
  "running (setMode e m s) = running s" "mode (setMode e m s) = m"
  "last_t (setMode e m s) = last_t s" "rafId (setMode e m s) = rafId s"
  "pending (setMode e m s) = pending s" "nextHandle (setMode e m s) = nextHandle s"
  "drawn (setMode e m s) = drawn s"
  by (simp_all add: setMode_def Let_def init_fields split_beta)

lemma setMode_parts:
  "parts (setMode e m s) = fst (initLoop e m (iterations (countOr90 m)) (seed s))"
  by (simp add: setMode_def Let_def init_def split_beta)

lemma setMode_parts_length: "length (parts (setMode e m s)) = iterations (countOr90 m)"
  by (simp add: setMode_parts initLoop_length)

lemma setMode_flares_other: "m \<noteq> ''summer'' \<Longrightarrow> flares (setMode e m s) = []"
  by (simp add: setMode_def Let_def)

lemma setMode_flares_summer:
  "length (flares (setMode e ''summer'' s)) =
     nat (2 + \<lfloor>rnd e (seed (init e (countOr90 ''summer'') (s\<lparr>mode := ''summer''\<rparr>))) 0 2\<rfloor>)"
  by (simp add: setMode_def Let_def split_beta flareLoop_length)

lemma capacity_values:
  "iterations (countOr90 ''spring'') = 110" "iterations (countOr90 ''summer'') = 100"
  "iterations (countOr90 ''monsoon'') = 140" "iterations (countOr90 ''autumn'') = 120"
  "iterations (countOr90 ''winter'') = 90" "iterations (countOr90 ''prewinter'') = 90"
  by (simp_all add: countOr90_def maxCounts_def truthy_def iterations_def)

lemma season_disj:
  "m \<in> set SEASONS \<Longrightarrow>
     m = ''spring'' \<or> m = ''summer'' \<or> m = ''monsoon'' \<or> m = ''autumn'' \<or> m = ''winter''
     \<or> m = ''prewinter''"
  by (simp add: SEASONS_def)

lemma season_cases:
  assumes "m \<in> set SEASONS"
  obtains "m = ''spring''" | "m = ''summer''" | "m = ''monsoon''" | "m = ''autumn''"
    | "m = ''winter''" | "m = ''prewinter''"
  using season_disj[OF assms] by (elim disjE) (erule that)+

lemma floor_rnd_0_2:
  assumes "0 \<le> random e k" "random e k < 1"
  shows "\<lfloor>rnd e k 0 2\<rfloor> = 0 \<or> \<lfloor>rnd e k 0 2\<rfloor> = 1"
proof -
  have "0 \<le> rnd e k 0 2" "rnd e k 0 2 < 2" using assms by (simp_all add: rnd_def)
  then have "0 \<le> \<lfloor>rnd e k 0 2\<rfloor>" "\<lfloor>rnd e k 0 2\<rfloor> < 2" by (simp_all add: floor_less_iff)
  then show ?thesis by linarith
qed

text \<open>
  C2, amended: for each of the six seasons, after \<open>setMode\<close> the pool holds exactly the
  season's capacity (spring 110, summer 100, monsoon 140, autumn 120, winter 90,
  prewinter 90); the flare list is empty, except for summer, where it holds 2 or 3 fresh
  flares (\<open>Math.random\<close> returning values in [0, 1)); the ripple list is left as it was.
\<close>

theorem setMode_pool_flares:
  assumes "m \<in> set SEASONS" and "\<forall>k. 0 \<le> random e k \<and> random e k < 1"
  shows "length (parts (setMode e m s)) =
           (if m = ''spring'' then 110 else if m = ''summer'' then 100
            else if m = ''monsoon'' then 140 else if m = ''autumn'' then 120 else 90)
         \<and> (if m = ''summer'' then length (flares (setMode e m s)) \<in> {2, 3}
            else flares (setMode e m s) = [])
         \<and> ripples (setMode e m s) = ripples s"
proof -
  have len: "length (parts (setMode e m s)) =
           (if m = ''spring'' then 110 else if m = ''summer'' then 100
            else if m = ''monsoon'' then 140 else if m = ''autumn'' then 120 else 90)"
    using assms(1)
    by (cases rule: season_cases) (simp_all add: setMode_parts_length capacity_values)
  have fl: "if m = ''summer'' then length (flares (setMode e m s)) \<in> {2, 3}
            else flares (setMode e m s) = []"
  proof (cases "m = ''summer''")
    case True
    let ?k = "seed (init e (countOr90 ''summer'') (s\<lparr>mode := ''summer''\<rparr>))"
    from assms(2) have "\<lfloor>rnd e ?k 0 2\<rfloor> = 0 \<or> \<lfloor>rnd e ?k 0 2\<rfloor> = 1"
      by (intro floor_rnd_0_2) simp_all
    then show ?thesis using True by (elim disjE) (simp_all add: setMode_flares_summer)
  next
    case False
    then show ?thesis by (simp add: setMode_flares_other)
  qed
  show ?thesis using len fl by (simp add: setMode_fields)
qed

theorem setMode_pool_flares_witness:
  "''summer'' \<in> set SEASONS \<and> (\<forall>k. 0 \<le> random env0 k \<and> random env0 k < 1)
   \<and> length (parts (setMode env0 ''summer'' soaked)) = 100
   \<and> length (flares (setMode env0 ''summer'' soaked)) \<in> {2, 3}
   \<and> ripples (setMode env0 ''summer'' soaked) = ripples soaked"
proof -
  have h1: "''summer'' \<in> set SEASONS" by (simp add: SEASONS_def)
  have h2: "\<forall>k. 0 \<le> random env0 k \<and> random env0 k < 1" by (simp add: env0_def)
  show ?thesis using h1 h2 setMode_pool_flares[OF h1 h2, of soaked] by simp
qed

section \<open>Unknown seasons\<close>








lemma prototype_name_empty_pool:
  "parts (setMode e ''constructor'' s) = []"
  by (simp add: setMode_parts countOr90_def maxCounts_def truthy_def iterations_def
      objectPrototypeNames_def)

section \<open>Reflow\<close>


lemma clamp_id: "a \<le> v \<Longrightarrow> v \<le> b \<Longrightarrow> clamp v a b = v"
  by (simp add: clamp_def)


lemma resizeCanvas_size:
  "1 \<le> logicalW (resizeCanvas iw ih e)" "1 \<le> logicalH (resizeCanvas iw ih e)"
  by (simp_all add: resizeCanvas_def)



section \<open>Scheduling of animation frames\<close>

lemma addRipple_fields:
  "parts (addRipple a b s) = parts s" "flares (addRipple a b s) = flares s"
  "running (addRipple a b s) = running s" "mode (addRipple a b s) = mode s"
  "last_t (addRipple a b s) = last_t s" "rafId (addRipple a b s) = rafId s"
  "seed (addRipple a b s) = seed s"
  "pending (addRipple a b s) = pending s" "nextHandle (addRipple a b s) = nextHandle s"
  "drawn (addRipple a b s) = drawn s"
  by (simp_all add: addRipple_def)

lemma drawPart_fields:
  "parts (drawPart e q s) = parts s" "flares (drawPart e q s) = flares s"
  "running (drawPart e q s) = running s" "mode (drawPart e q s) = mode s"
  "last_t (drawPart e q s) = last_t s" "rafId (drawPart e q s) = rafId s"
  "pending (drawPart e q s) = pending s" "nextHandle (drawPart e q s) = nextHandle s"
  by (simp_all add: drawPart_def Let_def addRipple_fields)

lemma recycle_fields:
  "parts (snd (recycle e s)) = parts s" "flares (snd (recycle e s)) = flares s"
  "running (snd (recycle e s)) = running s" "mode (snd (recycle e s)) = mode s"
  "last_t (snd (recycle e s)) = last_t s" "rafId (snd (recycle e s)) = rafId s"
  "pending (snd (recycle e s)) = pending s" "nextHandle (snd (recycle e s)) = nextHandle s"
  "ripples (snd (recycle e s)) = ripples s" "drawn (snd (recycle e s)) = drawn s"
  by (simp_all add: recycle_def split_beta)

lemma slot_fields:
  "parts (snd (slot e now dt p s)) = parts s" "flares (snd (slot e now dt p s)) = flares s"
  "running (snd (slot e now dt p s)) = running s" "mode (snd (slot e now dt p s)) = mode s"
  "last_t (snd (slot e now dt p s)) = last_t s" "rafId (snd (slot e now dt p s)) = rafId s"
  "pending (snd (slot e now dt p s)) = pending s"
  "nextHandle (snd (slot e now dt p s)) = nextHandle s"
  by (simp_all add: slot_def Let_def recycle_fields drawPart_fields)

lemma partsLoop_fields:
  "parts (snd (partsLoop e now dt ps s)) = parts s
   \<and> flares (snd (partsLoop e now dt ps s)) = flares s
   \<and> running (snd (partsLoop e now dt ps s)) = running s
   \<and> mode (snd (partsLoop e now dt ps s)) = mode s
   \<and> last_t (snd (partsLoop e now dt ps s)) = last_t s
   \<and> rafId (snd (partsLoop e now dt ps s)) = rafId s
   \<and> pending (snd (partsLoop e now dt ps s)) = pending s
   \<and> nextHandle (snd (partsLoop e now dt ps s)) = nextHandle s"
  by (induction ps arbitrary: s) (simp_all add: split_beta slot_fields)

lemma drawFlares_fields:
  "parts (drawFlares e s) = parts s" "ripples (drawFlares e s) = ripples s"
  "running (drawFlares e s) = running s" "mode (drawFlares e s) = mode s"
  "last_t (drawFlares e s) = last_t s" "rafId (drawFlares e s) = rafId s"
  "seed (drawFlares e s) = seed s"
  "pending (drawFlares e s) = pending s" "nextHandle (drawFlares e s) = nextHandle s"
  by (simp_all add: drawFlares_def)

lemma cleared_fields:
  "parts (cleared e now s) = parts s" "ripples (cleared e now s) = ripples s"
  "running (cleared e now s) = running s" "mode (cleared e now s) = mode s"
  "last_t (cleared e now s) = now" "rafId (cleared e now s) = rafId s"
  "seed (cleared e now s) = seed s"
  "pending (cleared e now s) = pending s" "nextHandle (cleared e now s) = nextHandle s"
  by (simp_all add: cleared_def Let_def drawFlares_fields)

lemma step_paused: "\<not> running s \<Longrightarrow> step e now s = s\<lparr> last_t := now, rafId := None \<rparr>"
  by (simp add: step_def Let_def)

lemma step_running:
  assumes "running s"
  shows "step e now s =
     (let (ps, s4) = partsLoop e now (elapsed now s) (parts s) (cleared e now s);
          (rs, d) = ripplesLoop (ripples s4) (drawn s4)
      in requestAnimationFrame (s4\<lparr> parts := ps, ripples := rs, drawn := d \<rparr>))"
  using assms by (simp add: step_def Let_def cleared_def split_beta drawFlares_fields)

lemma step_sched:
  assumes "running s"
  shows "running (step e now s)" "pending (step e now s) = pending s @ [nextHandle s]"
    "rafId (step e now s) = Some (nextHandle s)" "nextHandle (step e now s) = nextHandle s + 1"
    "mode (step e now s) = mode s" "last_t (step e now s) = now"
  using assms
  by (simp_all add: step_running split_beta requestAnimationFrame_def
      partsLoop_fields cleared_fields)

lemma create_fields:
  "running (createParticleEngine e m t)" "pending (createParticleEngine e m t) = [1]"
  "rafId (createParticleEngine e m t) = Some 1" "nextHandle (createParticleEngine e m t) = 2"
  "last_t (createParticleEngine e m t) = t" "ripples (createParticleEngine e m t) = []"
  "mode (createParticleEngine e m t) = (if m = [] then ''prewinter'' else m)"
  by (simp_all add: createParticleEngine_def requestAnimationFrame_def setMode_fields Let_def)

lemma pause_fields:
  "\<not> running (pause s)" "drawn (pause s) = []" "parts (pause s) = parts s"
  "nextHandle (pause s) = nextHandle s" "mode (pause s) = mode s"
  by (simp_all add: pause_def Let_def cancelAnimationFrame_def split: option.splits)

lemma pause_sched:
  assumes "sched_ok s"
  shows "rafId (pause s) = None" "pending (pause s) = []"
  using assms
  by (auto simp: sched_ok_def pause_def Let_def cancelAnimationFrame_def split: option.splits)

lemma pause_idem: "pause (pause s) = pause s"
  by (simp add: pause_def Let_def cancelAnimationFrame_def split: option.splits)

lemma resume_idem: "resume e t' (resume e t s) = resume e t s"
  by (simp add: resume_def requestAnimationFrame_def)

lemma resume_noop: "running s \<or> prefersReduced e \<Longrightarrow> resume e t s = s"
  by (auto simp: resume_def)

lemma resume_arms:
  assumes "\<not> running s" "\<not> prefersReduced e"
  shows "running (resume e t s)" "last_t (resume e t s) = t"
    "pending (resume e t s) = pending s @ [nextHandle s]"
    "rafId (resume e t s) = Some (nextHandle s)"
  using assms by (simp_all add: resume_def requestAnimationFrame_def)

lemma sched_ok_create: "sched_ok (createParticleEngine e m t)"
  by (simp add: sched_ok_def create_fields)

lemma sched_ok_pause: "sched_ok s \<Longrightarrow> sched_ok (pause s)"
  by (simp add: sched_ok_def[of "pause s"] pause_sched pause_fields) (simp add: sched_ok_def)

lemma sched_ok_resume: "sched_ok s \<Longrightarrow> sched_ok (resume e t s)"
  by (auto simp: sched_ok_def resume_def requestAnimationFrame_def split: option.splits)

lemma sched_ok_setMode: "sched_ok s \<Longrightarrow> sched_ok (setMode e m s)"
  by (simp add: sched_ok_def setMode_fields split: option.splits)

lemma sched_ok_reflow: "sched_ok s \<Longrightarrow> sched_ok (reflow e s)"
  by (simp add: sched_ok_def reflow_def split: option.splits)

lemma frame_idle: "pending s = [] \<Longrightarrow> frame e t s = s"
  by (simp add: frame_def)

lemma sched_ok_frame:
  assumes "sched_ok s"
  shows "sched_ok (frame e t s)"
proof (cases "rafId s")
  case None
  with assms have "pending s = []" by (simp add: sched_ok_def)
  then show ?thesis using assms by (simp add: frame_idle)
next
  case (Some h)
  with assms have p: "pending s = [h]" and r: "running s" and n: "0 < nextHandle s"
    by (simp_all add: sched_ok_def)
  have r': "running (s\<lparr> pending := [] \<rparr>)" using r by simp
  show ?thesis using n
    by (simp add: frame_def p sched_ok_def step_sched[OF r'])
qed

lemma sched_ok_event: "sched_ok s \<Longrightarrow> sched_ok (apply_event e ev s)"
  by (cases ev)
    (simp_all add: sched_ok_frame sched_ok_pause sched_ok_resume sched_ok_setMode sched_ok_reflow)

lemma sched_ok_run: "sched_ok s \<Longrightarrow> sched_ok (run evs s)"
  by (induction evs arbitrary: s) (auto simp: sched_ok_event)

lemma sched_ok_pending: "sched_ok s \<Longrightarrow> length (pending s) \<le> 1"
  by (simp add: sched_ok_def split: option.splits)


section \<open>Reduced motion\<close>




section \<open>Pause and resume\<close>

text \<open>
  C7: in every state \<open>s\<close> an engine reaches from its construction by frames, \<open>pause\<close>,
  \<open>resume\<close>, \<open>setMode\<close> and \<open>reflow\<close>, at most one frame is pending; \<open>pause\<close> stops the
  engine, forgets and cancels the pending frame and clears the canvas, so that a frame of
  the host after it runs nothing; \<open>resume\<close> changes nothing when the engine is running or
  motion is reduced, and otherwise sets the engine running, resets \<open>last\<close> and requests
  exactly one frame; a resume followed at once by a pause leaves no frame pending; and a
  second \<open>pause\<close> or \<open>resume\<close> changes nothing.
\<close>

theorem pause_resume_scheduling:
  assumes "s = run evs (createParticleEngine e0 m t0)"
  shows "length (pending s) \<le> 1
         \<and> \<not> running (pause s) \<and> rafId (pause s) = None \<and> pending (pause s) = []
         \<and> drawn (pause s) = []
         \<and> frame e t (pause s) = pause s
         \<and> (running s \<or> prefersReduced e \<longrightarrow> resume e t s = s)
         \<and> (\<not> running s \<and> \<not> prefersReduced e \<longrightarrow>
              running (resume e t s) \<and> last_t (resume e t s) = t
              \<and> pending (resume e t s) = [nextHandle s]
              \<and> rafId (resume e t s) = Some (nextHandle s))
         \<and> pending (pause (resume e t s)) = []
         \<and> pause (pause s) = pause s
         \<and> resume e t' (resume e t s) = resume e t s"
proof -
  have ok: "sched_ok s" unfolding assms by (rule sched_ok_run[OF sched_ok_create])
  have p0: "\<not> running s \<Longrightarrow> pending s = []"
    using ok by (simp add: sched_ok_def split: option.splits)
  have 1: "length (pending s) \<le> 1" by (rule sched_ok_pending[OF ok])
  have 2: "\<not> running (pause s) \<and> rafId (pause s) = None \<and> pending (pause s) = []
         \<and> drawn (pause s) = []"
    by (simp add: pause_fields pause_sched[OF ok])
  have 3: "frame e t (pause s) = pause s"
    by (rule frame_idle) (simp add: pause_sched[OF ok])
  have 4: "running s \<or> prefersReduced e \<longrightarrow> resume e t s = s"
    by (simp add: resume_noop)
  have 5: "\<not> running s \<and> \<not> prefersReduced e \<longrightarrow>
              running (resume e t s) \<and> last_t (resume e t s) = t
              \<and> pending (resume e t s) = [nextHandle s]
              \<and> rafId (resume e t s) = Some (nextHandle s)"
    using p0 by (simp add: resume_arms)
  have 6: "pending (pause (resume e t s)) = []"
    by (rule pause_sched[OF sched_ok_resume[OF ok]])
  show ?thesis using 1 2 3 4 5 6 pause_idem[of s] resume_idem[of e t' t s] by blast
qed

theorem pause_resume_scheduling_witness:
  "\<not> running (run [(env0, Frame 16), (env0, Pause)] (createParticleEngine env0 ''monsoon'' 0))
   \<and> \<not> prefersReduced env0
   \<and> running (resume env0 40
        (run [(env0, Frame 16), (env0, Pause)] (createParticleEngine env0 ''monsoon'' 0)))
   \<and> pending (resume env0 40
        (run [(env0, Frame 16), (env0, Pause)] (createParticleEngine env0 ''monsoon'' 0))) = [3]
   \<and> pending (pause (resume env0 40
        (run [(env0, Frame 16), (env0, Pause)] (createParticleEngine env0 ''monsoon'' 0)))) = []"
proof -
  let ?c = "createParticleEngine env0 ''monsoon'' 0"
  let ?s = "run [(env0, Frame 16), (env0, Pause)] ?c"
  have r: "running (?c\<lparr> pending := [] \<rparr>)" by (simp add: create_fields)
  have s: "?s = pause (step env0 16 (?c\<lparr> pending := [] \<rparr>))"
    by (simp add: frame_def create_fields)
  have nr: "\<not> running ?s" unfolding s by (rule pause_fields)
  have np: "\<not> prefersReduced env0" by (simp add: env0_def)
  have nh: "nextHandle ?s = 3"
    unfolding s by (simp add: pause_fields step_sched[OF r] create_fields)
  note w = pause_resume_scheduling[OF refl, of "[(env0, Frame 16), (env0, Pause)]" env0
      "''monsoon''" 0 env0 40 40]
  from w nr np have a: "running (resume env0 40 ?s)"
    and b: "pending (resume env0 40 ?s) = [nextHandle ?s]" by blast+
  from w have c: "pending (pause (resume env0 40 ?s)) = []" by blast
  show ?thesis using nr np a b[unfolded nh] c by blast
qed

section \<open>Pointer force\<close>




lemma influence_far: "180 \<le> dist e p \<Longrightarrow> influence e p = 0"
  by (simp add: influence_def)


lemma wind_zero:
  assumes "influence e p = 0"
  shows "windX e p = 0" "windY e p = 0" "wind e p = p"
  using assms by (simp_all add: windX_def windY_def wind_def)












section \<open>The loops of a tick\<close>

lemma ripplesLoop_fst:
  "fst (ripplesLoop rs d) = filter (\<lambda>rp. \<not> ralpha rp \<le> 0) (map aged rs)"
  by (induction rs) (simp_all add: split_beta Let_def aged_def)

lemma seasonForce_keeps:
  "px (seasonForce e m now dt p) = px p" "py (seasonForce e m now dt p) = py p"
  "pz (seasonForce e m now dt p) = pz p" "ptype (seasonForce e m now dt p) = ptype p"
  by (simp_all add: seasonForce_def Let_def)

lemma wind_keeps:
  "px (wind e p) = px p" "py (wind e p) = py p" "pz (wind e p) = pz p"
  "ptype (wind e p) = ptype p" "pang (wind e p) = pang p" "pspin (wind e p) = pspin p"
  by (simp_all add: wind_def)

lemma movePart_fields:
  "pvx (movePart e m now dt p) = pvx (seasonForce e m now dt (wind e p)) * 0.995"
  "pvy (movePart e m now dt p) = pvy (seasonForce e m now dt (wind e p)) * 0.997"
  "px (movePart e m now dt p) = px p + pvx (movePart e m now dt p) * (dt / 16) * pz p"
  "py (movePart e m now dt p) = py p + pvy (movePart e m now dt p) * (dt / 16) * pz p"
  "pz (movePart e m now dt p) = pz p" "ptype (movePart e m now dt p) = ptype p"
  by (simp_all add: movePart_def integrate_def damp_def seasonForce_keeps wind_keeps)

lemma drawPart_ripples:
  "ripples (drawPart e q s) = ripples s @ (if hits e q then [splash e q] else [])"
  by (simp add: drawPart_def Let_def addRipple_def hits_def splash_def)

lemma slot_ripples:
  "ripples (snd (slot e now dt p s)) =
     ripples s @ (if hits e (movePart e (mode s) now dt p)
                  then [splash e (movePart e (mode s) now dt p)] else [])"
  by (simp add: slot_def Let_def recycle_fields drawPart_ripples)

lemma partsLoop_ripples:
  "ripples (snd (partsLoop e now dt ps s)) =
     ripples s @ map (splash e) (filter (hits e) (map (movePart e (mode s) now dt) ps))"
  by (induction ps arbitrary: s) (simp_all add: split_beta slot_ripples slot_fields)

lemma partsLoop_length: "length (fst (partsLoop e now dt ps s)) = length ps"
  by (induction ps arbitrary: s) (simp_all add: split_beta)

lemma slot_fst:
  "fst (slot e now dt p s) =
     (if offscreen e (movePart e (mode s) now dt p)
      then fst (fresh e (mode s) (seed (drawPart e (movePart e (mode s) now dt p) s)))
      else movePart e (mode s) now dt p)"
  by (simp add: slot_def Let_def recycle_def split_beta drawPart_fields)

lemma partsLoop_nth:
  "i < length ps \<Longrightarrow>
     (offscreen e (movePart e (mode s) now dt (ps ! i)) \<longrightarrow>
        (\<exists>k. fst (partsLoop e now dt ps s) ! i = fst (fresh e (mode s) k)))
     \<and> (\<not> offscreen e (movePart e (mode s) now dt (ps ! i)) \<longrightarrow>
        fst (partsLoop e now dt ps s) ! i = movePart e (mode s) now dt (ps ! i))"
proof (induction ps arbitrary: s i)
  case Nil
  then show ?case by simp
next
  case (Cons p ps)
  show ?case
  proof (cases i)
    case 0
    then show ?thesis by (auto simp: split_beta slot_fst)
  next
    case (Suc j)
    with Cons.prems have j: "j < length ps" by simp
    from Cons.IH[OF j, of "snd (slot e now dt p s)"] show ?thesis
      using Suc by (simp add: split_beta slot_fields)
  qed
qed

lemma step_parts_length: "length (parts (step e now s)) = length (parts s)"
proof (cases "running s")
  case True
  then show ?thesis
    by (simp add: step_running split_beta requestAnimationFrame_def partsLoop_length)
next
  case False
  then show ?thesis by (simp add: step_paused)
qed

lemma step_parts:
  "running s \<Longrightarrow>
     parts (step e now s) = fst (partsLoop e now (elapsed now s) (parts s) (cleared e now s))"
  by (simp add: step_running split_beta requestAnimationFrame_def)

lemma step_parts_nth:
  assumes "running s" "i < length (parts s)"
  shows "(offscreen e (movePart e (mode s) now (elapsed now s) (parts s ! i)) \<longrightarrow>
          (\<exists>k. parts (step e now s) ! i = fst (fresh e (mode s) k)))
       \<and> (\<not> offscreen e (movePart e (mode s) now (elapsed now s) (parts s ! i)) \<longrightarrow>
          parts (step e now s) ! i = movePart e (mode s) now (elapsed now s) (parts s ! i))"
  using partsLoop_nth[OF assms(2), of e "cleared e now s" now "elapsed now s"]
  by (simp add: step_parts[OF assms(1)] cleared_fields)

lemma step_ripples:
  assumes "running s"
  shows "ripples (step e now s) =
     filter (\<lambda>rp. \<not> ralpha rp \<le> 0)
       (map aged (ripples s @ map (splash e)
          (filter (hits e) (map (movePart e (mode s) now (elapsed now s)) (parts s)))))"
  using assms
  by (simp add: step_running split_beta requestAnimationFrame_def ripplesLoop_fst
      partsLoop_ripples cleared_fields)

lemma fresh_above:
  assumes "0 \<le> random e (snd (newParticle e m k))" "random e (snd (newParticle e m k)) < 1"
    "0 \<le> random e (snd (newParticle e m k) + 1)" "random e (snd (newParticle e m k) + 1) < 1"
    "0 < logicalW e"
  shows "- 50 < py (fst (fresh e m k))" "py (fst (fresh e m k)) \<le> - 10"
    "0 \<le> px (fst (fresh e m k))" "px (fst (fresh e m k)) < logicalW e"
  using assms by (simp_all add: fresh_def split_beta)

lemma fresh_built:
  "fst (fresh e m k) =
     (fst (newParticle e m k))\<lparr> px := px (fst (fresh e m k)), py := py (fst (fresh e m k)) \<rparr>"
  by (simp add: fresh_def split_beta)

section \<open>Damping and integration\<close>

lemma dist_ge_dy: "\<bar>py p - mouseY e\<bar> \<le> dist e p"
proof -
  let ?h = "sqrt ((px p - mouseX e)\<^sup>2 + (py p - mouseY e)\<^sup>2)"
  have h: "\<bar>py p - mouseY e\<bar> \<le> ?h"
    using real_sqrt_sum_squares_ge2[of "\<bar>py p - mouseY e\<bar>" "px p - mouseX e"] by simp
  show ?thesis
  proof (cases "?h = 0")
    case True
    with h show ?thesis by (simp add: dist_def)
  next
    case False
    with h show ?thesis by (simp add: dist_def)
  qed
qed

lemma influence_below: "180 \<le> py p - mouseY e \<Longrightarrow> influence e p = 0"
  using dist_ge_dy[of p e] by (intro influence_far) linarith

lemma elapsed_cap: "elapsed now s \<le> 40" "now - last_t s \<le> 40 \<Longrightarrow> elapsed now s = now - last_t s"
  "40 \<le> now - last_t s \<Longrightarrow> elapsed now s = 40"
  by (simp_all add: elapsed_def)

lemma damp_fields:
  "pvx (damp q) = pvx q * 0.995" "pvy (damp q) = pvy q * 0.997"
  "px (damp q) = px q" "py (damp q) = py q" "pz (damp q) = pz q"
  by (simp_all add: damp_def)

lemma integrate_fields:
  "pvx (integrate dt q) = pvx q" "pvy (integrate dt q) = pvy q"
  "px (integrate dt q) = px q + pvx q * (dt / 16) * pz q"
  "py (integrate dt q) = py q + pvy q * (dt / 16) * pz q"
  by (simp_all add: integrate_def)

lemma monsoon_force:
  "pvy (seasonForce e ''monsoon'' now dt p) = pvy p + 0.02 * (dt / 16)"
  "pvx (seasonForce e ''monsoon'' now dt p) =
     pvx p + sin (now * 0.001 + (px p / logicalW e) * 12) * 0.06"
  by (simp_all add: seasonForce_def)

lemma monsoon_pvy:
  "pvy (movePart e ''monsoon'' now dt p) = (pvy p + windY e p + 0.02 * (dt / 16)) * 0.997"
  by (simp add: movePart_fields monsoon_force wind_def)

lemma sway_bound:
  fixes a s c k :: real
  assumes "\<bar>s\<bar> \<le> 1" "0 \<le> c" "0 \<le> k"
  shows "\<bar>(a + s * c) * k\<bar> \<le> (\<bar>a\<bar> + c) * k"
proof -
  have "\<bar>s * c\<bar> = \<bar>s\<bar> * c" using assms(2) by (simp add: abs_mult)
  also have "\<dots> \<le> 1 * c" using assms by (intro mult_right_mono)
  finally have 1: "\<bar>s * c\<bar> \<le> c" by simp
  have "\<bar>a + s * c\<bar> \<le> \<bar>a\<bar> + \<bar>s * c\<bar>" by (rule abs_triangle_ineq)
  with 1 have 2: "\<bar>a + s * c\<bar> \<le> \<bar>a\<bar> + c" by linarith
  have "\<bar>(a + s * c) * k\<bar> = \<bar>a + s * c\<bar> * k" using assms(3) by (simp add: abs_mult)
  also have "\<dots> \<le> (\<bar>a\<bar> + c) * k" using 2 assms(3) by (intro mult_right_mono)
  finally show ?thesis .
qed

lemma monsoon_pvx_bound:
  assumes "influence e p = 0"
  shows "\<bar>pvx (movePart e ''monsoon'' now dt p)\<bar> \<le> (\<bar>pvx p\<bar> + 0.06) * 0.995"
proof -
  have "pvx (movePart e ''monsoon'' now dt p) =
          (pvx p + sin (now * 0.001 + (px p / logicalW e) * 12) * 0.06) * 0.995"
    by (simp add: movePart_fields monsoon_force wind_zero[OF assms])
  moreover have "\<bar>(pvx p + sin (now * 0.001 + (px p / logicalW e) * 12) * 0.06) * 0.995\<bar>
      \<le> (\<bar>pvx p\<bar> + 0.06) * 0.995"
    by (rule sway_bound) simp_all
  ultimately show ?thesis by (simp only:)
qed

text \<open>The rain drop of \<open>puddle\<close> after the tick at time 16.\<close>

lemma drop_influence: "influence env0 drop = 0"
  by (rule influence_below) (simp add: drop_def env0_def)

lemma drop_moved:
  "pvy (movePart env0 ''monsoon'' 16 16 drop) = 1.01694"
  "py (movePart env0 ''monsoon'' 16 16 drop) = 600.01694"
  "\<bar>pvx (movePart env0 ''monsoon'' 16 16 drop)\<bar> \<le> 0.06"
  "\<bar>px (movePart env0 ''monsoon'' 16 16 drop) - 400\<bar> \<le> 0.06"
  "pz (movePart env0 ''monsoon'' 16 16 drop) = 1"
  "ptype (movePart env0 ''monsoon'' 16 16 drop) = Rain"
proof -
  let ?q = "movePart env0 ''monsoon'' 16 16 drop"
  show v: "pvy ?q = 1.01694"
    by (simp add: monsoon_pvy wind_zero[OF drop_influence]) (simp add: drop_def)
  show "py ?q = 600.01694"
    by (simp add: movePart_fields(4) v) (simp add: drop_def)
  have "\<bar>pvx ?q\<bar> \<le> (\<bar>pvx drop\<bar> + 0.06) * 0.995"
    by (rule monsoon_pvx_bound[OF drop_influence])
  then show b: "\<bar>pvx ?q\<bar> \<le> 0.06" by (simp add: drop_def)
  have "px ?q - 400 = pvx ?q" by (simp add: movePart_fields(3)) (simp add: drop_def)
  with b show "\<bar>px ?q - 400\<bar> \<le> 0.06" by simp
  show "pz ?q = 1" by (simp add: movePart_fields) (simp add: drop_def)
  show "ptype ?q = Rain" by (simp add: movePart_fields) (simp add: drop_def)
qed

lemma env0_size: "logicalW env0 = 800" "logicalH env0 = 600"
  by (simp_all add: env0_def)

lemma drop_onscreen: "\<not> offscreen env0 (movePart env0 ''monsoon'' 16 16 drop)"
  using drop_moved(2,4) by (auto simp: offscreen_def env0_size abs_le_iff)

lemma puddle_fields:
  "running puddle" "parts puddle = [drop]" "mode puddle = ''monsoon''" "last_t puddle = 0"
  "ripples puddle = []"
  by (simp_all add: puddle_def)

text \<open>
  C8: the elapsed time of a tick is at most 40 (it is \<open>now - last\<close> up to 40, and 40
  beyond); the physics of a particle is the forces, then the damping, then the
  integration with that elapsed time; the damping multiplies \<open>vx\<close> by 0.995 and \<open>vy\<close> by
  0.997 once, whatever the elapsed time is; the position advances by the damped velocity
  times \<open>dt / 16\<close> times the depth factor \<open>z\<close>; and after the tick of a running engine a
  slot whose particle stays on screen holds exactly this result for the tick's elapsed
  time.
\<close>

theorem tick_integration:
  "elapsed now s \<le> 40 \<and> (now - last_t s \<le> 40 \<longrightarrow> elapsed now s = now - last_t s)
   \<and> (40 \<le> now - last_t s \<longrightarrow> elapsed now s = 40)
   \<and> movePart e m now dt p = integrate dt (damp (seasonForce e m now dt (wind e p)))
   \<and> pvx (damp q) = pvx q * 0.995 \<and> pvy (damp q) = pvy q * 0.997
   \<and> pvx (movePart e m now dt p) = pvx (seasonForce e m now dt (wind e p)) * 0.995
   \<and> pvy (movePart e m now dt p) = pvy (seasonForce e m now dt (wind e p)) * 0.997
   \<and> px (movePart e m now dt p) = px p + pvx (movePart e m now dt p) * (dt / 16) * pz p
   \<and> py (movePart e m now dt p) = py p + pvy (movePart e m now dt p) * (dt / 16) * pz p
   \<and> (running s \<and> i < length (parts s)
        \<and> \<not> offscreen e (movePart e (mode s) now (elapsed now s) (parts s ! i)) \<longrightarrow>
          parts (step e now s) ! i = movePart e (mode s) now (elapsed now s) (parts s ! i))"
proof -
  have "running s \<and> i < length (parts s)
        \<and> \<not> offscreen e (movePart e (mode s) now (elapsed now s) (parts s ! i)) \<longrightarrow>
          parts (step e now s) ! i = movePart e (mode s) now (elapsed now s) (parts s ! i)"
    using step_parts_nth[of s i e now] by blast
  then show ?thesis
    using elapsed_cap[of now s] movePart_fields(1-4)[of e m now dt p] damp_fields(1,2)[of q]
      movePart_def[of e m now dt p]
    by blast
qed

theorem tick_integration_witness:
  "16 - last_t puddle \<le> 40 \<and> elapsed 16 puddle = 16
   \<and> 40 \<le> 1000 - last_t puddle \<and> elapsed 1000 puddle = 40
   \<and> running puddle \<and> 0 < length (parts puddle)
   \<and> \<not> offscreen env0 (movePart env0 (mode puddle) 16 (elapsed 16 puddle) (parts puddle ! 0))
   \<and> parts (step env0 16 puddle) ! 0 = movePart env0 ''monsoon'' 16 16 drop
   \<and> pvy (parts (step env0 16 puddle) ! 0) = 1.01694
   \<and> py (parts (step env0 16 puddle) ! 0) = 600.01694"
proof -
  note t = tick_integration[of 16 puddle env0 "''monsoon''" 16 drop drop 0]
  note u = tick_integration[of 1000 puddle env0 "''monsoon''" 16 drop drop 0]
  have h1: "16 - last_t puddle \<le> 40" and h2: "40 \<le> 1000 - last_t puddle"
    by (simp_all add: puddle_fields)
  from t h1 have e: "elapsed 16 puddle = 16" by (simp add: puddle_fields)
  from u h2 have e': "elapsed 1000 puddle = 40" by blast
  have h3: "running puddle" "0 < length (parts puddle)" by (simp_all add: puddle_fields)
  have h4: "\<not> offscreen env0
     (movePart env0 (mode puddle) 16 (elapsed 16 puddle) (parts puddle ! 0))"
    using drop_onscreen by (simp add: e puddle_fields)
  from t h3 h4 have "parts (step env0 16 puddle) ! 0 =
     movePart env0 (mode puddle) 16 (elapsed 16 puddle) (parts puddle ! 0)" by blast
  then have p: "parts (step env0 16 puddle) ! 0 = movePart env0 ''monsoon'' 16 16 drop"
    by (simp add: e puddle_fields)
  show ?thesis using h1 h2 e e' h3 h4 p by (simp add: drop_moved)
qed

section \<open>Recycling\<close>

lemma frame_parts_length: "length (parts (frame e now s)) = length (parts s)"
  by (cases "pending s") (simp_all add: frame_def step_parts_length)

lemma event_parts_length:
  "\<not> is_setMode ev \<Longrightarrow> length (parts (apply_event e ev s)) = length (parts s)"
  by (cases ev)
    (simp_all add: is_setMode_def frame_parts_length pause_fields resume_def
      requestAnimationFrame_def reflow_def)

lemma run_parts_length:
  "\<not> list_ex is_setMode (map snd evs) \<Longrightarrow> length (parts (run evs s)) = length (parts s)"
  by (induction evs arbitrary: s) (auto simp: event_parts_length)

lemma sunk_fields:
  "running sunk" "parts sunk = [drop\<lparr> py := 685 \<rparr>]" "mode sunk = ''monsoon''"
  "last_t sunk = 0"
  by (simp_all add: sunk_def puddle_def)

lemma sunk_offscreen:
  "offscreen env0 (movePart env0 ''monsoon'' 16 16 (drop\<lparr> py := 685 \<rparr>))"
proof -
  let ?p = "drop\<lparr> py := 685 \<rparr>"
  have i: "influence env0 ?p = 0"
    by (rule influence_below) (simp add: env0_def)
  have v: "pvy (movePart env0 ''monsoon'' 16 16 ?p) = 1.01694"
    by (simp add: monsoon_pvy wind_zero[OF i]) (simp add: drop_def)
  have "py (movePart env0 ''monsoon'' 16 16 ?p) = 686.01694"
    by (simp add: movePart_fields(4) v) (simp add: drop_def)
  then show ?thesis by (simp add: offscreen_def env0_size)
qed

text \<open>
  C6: no tick changes the size of the pool, and no sequence of frames, pauses, resumes
  and reflows does: the size is constant between mode switches. A particle is off-screen
  when, after it has moved, \<open>y > logicalH + 80\<close>, \<open>x < -140\<close>, \<open>x > logicalW + 140\<close> or
  \<open>y < -140\<close>. In a tick of a running engine the slot of an off-screen particle receives a
  new particle of \<open>newParticle\<close>, of which only \<open>x\<close> and \<open>y\<close> are then set: \<open>y\<close> lies
  above the top edge, in \<open>(-50, -10]\<close>, and \<open>x\<close> in \<open>[0, logicalW)\<close> (\<open>Math.random\<close> returning
  values in [0, 1)); every other slot holds its own particle, moved.
\<close>

theorem recycling_keeps_pool:
  "length (parts (step e now s)) = length (parts s)
   \<and> (\<not> list_ex is_setMode (map snd evs) \<longrightarrow>
        length (parts (run evs s)) = length (parts s))
   \<and> offscreen e q =
        (py q > logicalH e + 80 \<or> px q < - 140 \<or> px q > logicalW e + 140 \<or> py q < - 140)
   \<and> (running s \<and> i < length (parts s)
        \<and> offscreen e (movePart e (mode s) now (elapsed now s) (parts s ! i)) \<longrightarrow>
          (\<exists>k. parts (step e now s) ! i = fst (fresh e (mode s) k)))
   \<and> (running s \<and> i < length (parts s)
        \<and> \<not> offscreen e (movePart e (mode s) now (elapsed now s) (parts s ! i)) \<longrightarrow>
          parts (step e now s) ! i = movePart e (mode s) now (elapsed now s) (parts s ! i))
   \<and> fst (fresh e m k) =
        (fst (newParticle e m k))\<lparr> px := px (fst (fresh e m k)), py := py (fst (fresh e m k)) \<rparr>
   \<and> ((\<forall>j. 0 \<le> random e j \<and> random e j < 1) \<and> 0 < logicalW e \<longrightarrow>
        - 50 < py (fst (fresh e m k)) \<and> py (fst (fresh e m k)) \<le> - 10
        \<and> 0 \<le> px (fst (fresh e m k)) \<and> px (fst (fresh e m k)) < logicalW e)"
proof -
  have above: "(\<forall>j. 0 \<le> random e j \<and> random e j < 1) \<and> 0 < logicalW e \<longrightarrow>
        - 50 < py (fst (fresh e m k)) \<and> py (fst (fresh e m k)) \<le> - 10
        \<and> 0 \<le> px (fst (fresh e m k)) \<and> px (fst (fresh e m k)) < logicalW e"
    using fresh_above[of e m k] by blast
  have off: "offscreen e q =
        (py q > logicalH e + 80 \<or> px q < - 140 \<or> px q > logicalW e + 140 \<or> py q < - 140)"
    by (rule offscreen_def)
  show ?thesis
    using step_parts_length[of e now s] run_parts_length[of evs s] off
      step_parts_nth[of s i e now] fresh_built[of e m k] above
    by blast
qed

theorem recycling_keeps_pool_witness:
  "running sunk \<and> 0 < length (parts sunk)
   \<and> offscreen env0 (movePart env0 (mode sunk) 16 (elapsed 16 sunk) (parts sunk ! 0))
   \<and> (\<exists>k. parts (step env0 16 sunk) ! 0 = fst (fresh env0 (mode sunk) k))
   \<and> length (parts (step env0 16 sunk)) = 1
   \<and> \<not> list_ex is_setMode (map snd [(env0, Frame 16), (env0, Pause), (env0, Reflow),
          (env0, Resume 40), (env0, Frame 56)])
   \<and> length (parts (run [(env0, Frame 16), (env0, Pause), (env0, Reflow),
          (env0, Resume 40), (env0, Frame 56)] sunk)) = 1
   \<and> (\<forall>j. 0 \<le> random env0 j \<and> random env0 j < 1) \<and> 0 < logicalW env0
   \<and> - 50 < py (fst (fresh env0 ''monsoon'' 0)) \<and> py (fst (fresh env0 ''monsoon'' 0)) \<le> - 10"
proof -
  let ?evs = "[(env0, Frame 16), (env0, Pause), (env0, Reflow), (env0, Resume 40),
      (env0, Frame 56)]"
  note t = recycling_keeps_pool[of env0 16 sunk ?evs drop 0 "''monsoon''" 0]
  have e: "elapsed 16 sunk = 16" by (simp add: elapsed_def sunk_fields)
  have h1: "running sunk" "0 < length (parts sunk)" by (simp_all add: sunk_fields)
  have h2: "offscreen env0 (movePart env0 (mode sunk) 16 (elapsed 16 sunk) (parts sunk ! 0))"
    using sunk_offscreen by (simp add: e sunk_fields)
  have h3: "\<not> list_ex is_setMode (map snd ?evs)" by (simp add: is_setMode_def)
  have h4: "\<forall>j. 0 \<le> random env0 j \<and> random env0 j < 1" "0 < logicalW env0"
    by (simp_all add: env0_def)
  have l: "length (parts sunk) = 1" by (simp add: sunk_fields)
  from t h1 h2 have a: "\<exists>k. parts (step env0 16 sunk) ! 0 = fst (fresh env0 (mode sunk) k)"
    by blast
  from t have b: "length (parts (step env0 16 sunk)) = 1" unfolding l by blast
  from t h3 have c: "length (parts (run ?evs sunk)) = 1" unfolding l by blast
  from t h4 have d: "- 50 < py (fst (fresh env0 ''monsoon'' 0))"
    "py (fst (fresh env0 ''monsoon'' 0)) \<le> - 10" by blast+
  show ?thesis using h1 h2 h3 h4 a b c d by blast
qed

section \<open>The first tick of the monsoon\<close>

lemma aged_splash:
  "aged (splash e q) = \<lparr> rx = px q, ry = logicalH e - 3, rr = 2.9, ralpha = 0.335 \<rparr>"
  by (simp add: aged_def splash_def)

lemma step_ripples_split:
  assumes "running s"
  shows "ripples (step e now s) =
     filter (\<lambda>rp. 0 < ralpha rp) (map aged (ripples s))
     @ map (\<lambda>q. \<lparr> rx = px q, ry = logicalH e - 3, rr = 2.9, ralpha = 0.335 \<rparr>)
         (filter (hits e) (map (movePart e (mode s) now (elapsed now s)) (parts s)))"
proof -
  have 1: "filter (\<lambda>rp. \<not> ralpha rp \<le> 0) (map aged (map (splash e) qs)) =
        map (\<lambda>q. \<lparr> rx = px q, ry = logicalH e - 3, rr = 2.9, ralpha = 0.335 \<rparr>) qs" for qs
    by (induction qs) (simp_all add: aged_splash)
  have 2: "(\<lambda>rp::ripple. \<not> ralpha rp \<le> 0) = (\<lambda>rp. 0 < ralpha rp)"
    by (simp add: fun_eq_iff not_le)
  show ?thesis
    unfolding step_ripples[OF assms] map_append filter_append 1
    by (simp only: 2)
qed

lemma newParticle_monsoon:
  "ptype (fst (newParticle e ''monsoon'' k)) = Rain"
  "pvy (fst (newParticle e ''monsoon'' k)) = rnd e (k + 7) 0.65 1.4"
  "pvx (fst (newParticle e ''monsoon'' k)) = rnd e (k + 6) (- 0.25) 0.2"
  "px (fst (newParticle e ''monsoon'' k)) = rnd e k 0 (logicalW e)"
  "py (fst (newParticle e ''monsoon'' k)) = rnd e (k + 1) (- 60) (logicalH e + 60)"
  "pz (fst (newParticle e ''monsoon'' k)) = rnd e (k + 4) 0.4 1.2"
  by (simp_all add: newParticle_def baseParticle_def Let_def add.commute)

lemma initLoop_monsoon_rain:
  "i < n \<Longrightarrow> ptype (fst (initLoop e ''monsoon'' n k) ! i) = Rain"
proof (induction n arbitrary: k i)
  case 0
  then show ?case by simp
next
  case (Suc n)
  show ?case
  proof (cases i)
    case 0
    then show ?thesis by (simp add: split_beta newParticle_monsoon)
  next
    case (Suc j)
    with Suc.prems have "j < n" by simp
    from Suc.IH[OF this] show ?thesis using Suc by (simp add: split_beta)
  qed
qed

lemma initLoop_first: "0 < n \<Longrightarrow> fst (initLoop e m n k) ! 0 = fst (newParticle e m k)"
  by (cases n) (simp_all add: split_beta)

lemma create_parts:
  "m \<noteq> [] \<Longrightarrow>
     parts (createParticleEngine e m t) = fst (initLoop e m (iterations (countOr90 m)) 0)"
  by (simp add: createParticleEngine_def requestAnimationFrame_def setMode_parts Let_def)

lemma create_monsoon:
  "parts (createParticleEngine e ''monsoon'' t) = fst (initLoop e ''monsoon'' 140 0)"
  "length (parts (createParticleEngine e ''monsoon'' t)) = 140"
  "mode (createParticleEngine e ''monsoon'' t) = ''monsoon''"
  by (simp_all add: create_parts capacity_values initLoop_length create_fields)

lemma rain_hits:
  assumes "\<And>i. i < length ps \<Longrightarrow> ptype (ps ! i) = Rain"
  shows "filter (hits e) (map (movePart e m now dt) ps) =
         filter (\<lambda>q. logicalH e - 2 < py q) (map (movePart e m now dt) ps)"
proof (rule filter_cong[OF refl])
  fix q assume "q \<in> set (map (movePart e m now dt) ps)"
  then obtain i where "i < length ps" "q = movePart e m now dt (ps ! i)"
    by (auto simp: in_set_conv_nth)
  with assms show "hits e q = (logicalH e - 2 < py q)"
    by (simp add: hits_def movePart_fields)
qed

text \<open>
  C5, amended: in an engine built for the monsoon, the pool holds 140 rain drops and no
  ripple; after one tick with an elapsed time of 16 the vertical velocity of a drop is
  its old one plus the pointer force plus the pull \<open>0.02 * (16 / 16)\<close>, all multiplied by
  the damping factor 0.997, that is \<open>(vy + 0.02) * 0.997\<close> for a drop out of the
  pointer's reach; a drop that stays on screen is found moved in its slot; and the
  ripples after the tick are exactly one for each drop whose new \<open>y\<close> exceeds
  \<open>logicalH - 2\<close>, at \<open>(x, logicalH - 3)\<close>, aged once by the ripple loop of the same tick.
\<close>

theorem monsoon_first_tick:
  assumes "s = createParticleEngine e ''monsoon'' t0" and "now = t0 + 16"
  shows "length (parts s) = 140 \<and> elapsed now s = 16 \<and> ripples s = []
    \<and> (i < 140 \<longrightarrow>
         ptype (parts s ! i) = Rain
         \<and> pvy (movePart e ''monsoon'' now 16 (parts s ! i)) =
             (pvy (parts s ! i) + windY e (parts s ! i) + 0.02 * (16 / 16)) * 0.997
         \<and> (influence e (parts s ! i) = 0 \<longrightarrow>
              pvy (movePart e ''monsoon'' now 16 (parts s ! i)) =
                (pvy (parts s ! i) + 0.02 * (16 / 16)) * 0.997)
         \<and> (\<not> offscreen e (movePart e ''monsoon'' now 16 (parts s ! i)) \<longrightarrow>
              parts (step e now s) ! i = movePart e ''monsoon'' now 16 (parts s ! i)))
    \<and> ripples (step e now s) =
        map (\<lambda>q. \<lparr> rx = px q, ry = logicalH e - 3, rr = 2.9, ralpha = 0.335 \<rparr>)
          (filter (\<lambda>q. logicalH e - 2 < py q) (map (movePart e ''monsoon'' now 16) (parts s)))"
proof -
  have len: "length (parts s) = 140" and md: "mode s = ''monsoon''" and run: "running s"
    and rp: "ripples s = []"
    unfolding assms(1) by (simp_all add: create_monsoon(2,3) create_fields)
  have el: "elapsed now s = 16"
    unfolding assms by (simp add: elapsed_def create_fields)
  have rain: "ptype (parts s ! j) = Rain" if "j < length (parts s)" for j
    using that unfolding assms(1)
    by (simp add: create_monsoon(1) initLoop_length initLoop_monsoon_rain)
  have vel: "pvy (movePart e ''monsoon'' now 16 (parts s ! i)) =
             (pvy (parts s ! i) + windY e (parts s ! i) + 0.02 * (16 / 16)) * 0.997"
    by (rule monsoon_pvy)
  have vel0: "influence e (parts s ! i) = 0 \<longrightarrow>
              pvy (movePart e ''monsoon'' now 16 (parts s ! i)) =
                (pvy (parts s ! i) + 0.02 * (16 / 16)) * 0.997"
    by (simp add: monsoon_pvy wind_zero)
  have slot: "i < 140 \<longrightarrow> \<not> offscreen e (movePart e ''monsoon'' now 16 (parts s ! i)) \<longrightarrow>
              parts (step e now s) ! i = movePart e ''monsoon'' now 16 (parts s ! i)"
    using step_parts_nth[OF run, of i e now] by (simp add: len md el)
  have rip: "ripples (step e now s) =
        map (\<lambda>q. \<lparr> rx = px q, ry = logicalH e - 3, rr = 2.9, ralpha = 0.335 \<rparr>)
          (filter (\<lambda>q. logicalH e - 2 < py q) (map (movePart e ''monsoon'' now 16) (parts s)))"
    using rain_hits[of "parts s" e "''monsoon''" now 16, OF rain]
    by (simp add: step_ripples_split[OF run] rp md el)
  show ?thesis using len el rp rain[of i] vel vel0 slot rip by (simp add: len)
qed


text \<open>The first particle of an engine built for the monsoon in \<open>env0\<close>, and its first tick.\<close>

lemma first_drop:
  "parts (createParticleEngine e ''monsoon'' t) ! 0 = fst (newParticle e ''monsoon'' 0)"
  by (simp add: create_monsoon(1) initLoop_first)

lemma first_drop_fields:
  "px (fst (newParticle env0 ''monsoon'' 0)) = 400"
  "py (fst (newParticle env0 ''monsoon'' 0)) = 300"
  "pvx (fst (newParticle env0 ''monsoon'' 0)) = - 0.025"
  "pvy (fst (newParticle env0 ''monsoon'' 0)) = 1.025"
  "pz (fst (newParticle env0 ''monsoon'' 0)) = 0.8"
  by (simp_all add: newParticle_monsoon rnd_def) (simp_all add: env0_def)

lemma first_drop_influence: "influence env0 (fst (newParticle env0 ''monsoon'' 0)) = 0"
  by (rule influence_below) (simp add: first_drop_fields, simp add: env0_def)

lemma first_drop_moved:
  "pvy (movePart env0 ''monsoon'' 16 16 (fst (newParticle env0 ''monsoon'' 0))) = 1.041865"
  "\<not> offscreen env0 (movePart env0 ''monsoon'' 16 16 (fst (newParticle env0 ''monsoon'' 0)))"
proof -
  let ?p = "fst (newParticle env0 ''monsoon'' 0)"
  let ?q = "movePart env0 ''monsoon'' 16 16 ?p"
  show v: "pvy ?q = 1.041865"
    by (simp add: monsoon_pvy wind_zero[OF first_drop_influence] first_drop_fields)
  have y: "py ?q = 300.833492"
    by (simp add: movePart_fields(4) v first_drop_fields)
  have "\<bar>pvx ?q\<bar> \<le> (\<bar>pvx ?p\<bar> + 0.06) * 0.995"
    by (rule monsoon_pvx_bound[OF first_drop_influence])
  then have b: "\<bar>pvx ?q\<bar> \<le> 0.1" by (simp add: first_drop_fields)
  have "px ?q = 400 + pvx ?q * 0.8" by (simp add: movePart_fields(3) first_drop_fields)
  with b have "399 \<le> px ?q \<and> px ?q \<le> 401" by (auto simp: abs_le_iff)
  with y show "\<not> offscreen env0 ?q" by (simp add: offscreen_def env0_size)
qed

text \<open>
  C5, as stated, fails: the velocity is damped after the pull is added (line 357). The
  first drop of an engine built in \<open>env0\<close> starts with \<open>vy = 1.025\<close>, the pointer rests out
  of reach, and after a tick with an elapsed time of 16 its \<open>vy\<close> is 1.041865, not 1.045.
\<close>

theorem monsoon_damped_counterexample:
  "mouseVX env0 = 0 \<and> mouseVY env0 = 0
   \<and> pvy (parts (createParticleEngine env0 ''monsoon'' 0) ! 0) = 1.025
   \<and> pvy (parts (step env0 16 (createParticleEngine env0 ''monsoon'' 0)) ! 0) = 1.041865"
proof -
  let ?c = "createParticleEngine env0 ''monsoon'' 0"
  have r: "running ?c" and l: "0 < length (parts ?c)"
    by (simp_all add: create_fields create_monsoon(2))
  have e: "elapsed 16 ?c = 16" by (simp add: elapsed_def create_fields)
  have "parts (step env0 16 ?c) ! 0 =
          movePart env0 ''monsoon'' 16 16 (fst (newParticle env0 ''monsoon'' 0))"
    using step_parts_nth[OF r l, of env0 16] first_drop_moved(2)
    by (simp add: e create_monsoon(3) first_drop)
  then show ?thesis
    by (simp add: first_drop first_drop_fields first_drop_moved(1)) (simp add: env0_def)
qed

theorem monsoon_first_tick_witness:
  "(16::real) = 0 + 16 \<and> (0::nat) < 140
   \<and> length (parts (createParticleEngine env0 ''monsoon'' 0)) = 140
   \<and> ptype (parts (createParticleEngine env0 ''monsoon'' 0) ! 0) = Rain
   \<and> influence env0 (parts (createParticleEngine env0 ''monsoon'' 0) ! 0) = 0
   \<and> pvy (movePart env0 ''monsoon'' 16 16 (parts (createParticleEngine env0 ''monsoon'' 0) ! 0))
       = (pvy (parts (createParticleEngine env0 ''monsoon'' 0) ! 0) + 0.02 * (16 / 16)) * 0.997
   \<and> \<not> offscreen env0
         (movePart env0 ''monsoon'' 16 16 (parts (createParticleEngine env0 ''monsoon'' 0) ! 0))
   \<and> parts (step env0 16 (createParticleEngine env0 ''monsoon'' 0)) ! 0 =
       movePart env0 ''monsoon'' 16 16 (parts (createParticleEngine env0 ''monsoon'' 0) ! 0)
   \<and> ripples (step env0 16 (createParticleEngine env0 ''monsoon'' 0)) =
        map (\<lambda>q. \<lparr> rx = px q, ry = logicalH env0 - 3, rr = 2.9, ralpha = 0.335 \<rparr>)
          (filter (\<lambda>q. logicalH env0 - 2 < py q)
             (map (movePart env0 ''monsoon'' 16 16)
                (parts (createParticleEngine env0 ''monsoon'' 0))))"
proof -
  let ?c = "createParticleEngine env0 ''monsoon'' 0"
  have h: "(16::real) = 0 + 16" "(0::nat) < 140" by simp_all
  note t = monsoon_first_tick[OF refl h(1), of env0 0]
  have i: "influence env0 (parts ?c ! 0) = 0" by (simp add: first_drop first_drop_influence)
  have o: "\<not> offscreen env0 (movePart env0 ''monsoon'' 16 16 (parts ?c ! 0))"
    by (simp add: first_drop first_drop_moved(2))
  show ?thesis using h t i o by blast
qed

section \<open>Ripples of a rain drop\<close>

lemma step_ripple_mem:
  assumes "running s" and "i < length (parts s)" and "ptype (parts s ! i) = Rain"
    and "logicalH e - 2 < py (movePart e (mode s) now (elapsed now s) (parts s ! i))"
  shows "\<lparr> rx = px (movePart e (mode s) now (elapsed now s) (parts s ! i)),
            ry = logicalH e - 3, rr = 2.9, ralpha = 0.335 \<rparr> \<in> set (ripples (step e now s))"
proof -
  let ?mv = "movePart e (mode s) now (elapsed now s)"
  have "hits e (?mv (parts s ! i))"
    using assms(3,4) by (simp add: hits_def movePart_fields)
  moreover have "?mv (parts s ! i) \<in> set (map ?mv (parts s))"
    using assms(2) by simp
  ultimately have "?mv (parts s ! i) \<in> set (filter (hits e) (map ?mv (parts s)))"
    by simp
  then show ?thesis
    unfolding step_ripples_split[OF assms(1)] by (simp add: image_iff) blast
qed

text \<open>
  C10: in every tick of a running engine, whatever happened in earlier ticks, a rain drop
  whose new \<open>y\<close> exceeds \<open>logicalH - 2\<close> adds a ripple at \<open>(x, logicalH - 3)\<close>: the ripples
  after the tick are the surviving old ones, aged, followed by one new ripple for each
  such drop. A drop that is not off-screen (its \<open>y\<close> is at most \<open>logicalH + 80\<close>) stays in
  its slot as a rain drop of a running engine, so the next tick finds it there again.
  The instance that follows takes one drop through two ticks, and finds two ripples.
\<close>

theorem rain_ripples_every_tick:
  assumes "running s" and "i < length (parts s)" and "ptype (parts s ! i) = Rain"
    and "logicalH e - 2 < py (movePart e (mode s) now (elapsed now s) (parts s ! i))"
  shows "\<lparr> rx = px (movePart e (mode s) now (elapsed now s) (parts s ! i)),
            ry = logicalH e - 3, rr = 2.9, ralpha = 0.335 \<rparr> \<in> set (ripples (step e now s))
    \<and> ripples (step e now s) =
        filter (\<lambda>rp. 0 < ralpha rp) (map aged (ripples s))
        @ map (\<lambda>q. \<lparr> rx = px q, ry = logicalH e - 3, rr = 2.9, ralpha = 0.335 \<rparr>)
            (filter (hits e) (map (movePart e (mode s) now (elapsed now s)) (parts s)))
    \<and> (\<not> offscreen e (movePart e (mode s) now (elapsed now s) (parts s ! i)) \<longrightarrow>
          parts (step e now s) ! i = movePart e (mode s) now (elapsed now s) (parts s ! i)
          \<and> ptype (parts (step e now s) ! i) = Rain
          \<and> running (step e now s) \<and> i < length (parts (step e now s)))"
proof -
  let ?mv = "movePart e (mode s) now (elapsed now s)"
  have mem: "\<lparr> rx = px (?mv (parts s ! i)), ry = logicalH e - 3, rr = 2.9,
      ralpha = 0.335 \<rparr> \<in> set (ripples (step e now s))"
    by (rule step_ripple_mem[OF assms])
  have keep: "\<not> offscreen e (?mv (parts s ! i)) \<longrightarrow>
          parts (step e now s) ! i = ?mv (parts s ! i)
          \<and> ptype (parts (step e now s) ! i) = Rain
          \<and> running (step e now s) \<and> i < length (parts (step e now s))"
    using step_parts_nth[OF assms(1,2), of e now] assms(2,3)
    by (simp add: movePart_fields step_sched[OF assms(1)] step_parts_length)
  show ?thesis using mem keep step_ripples_split[OF assms(1), of e now] by blast
qed


lemma singleton_nth: "length xs = 1 \<Longrightarrow> xs ! 0 = a \<Longrightarrow> xs = [a]"
  by (cases xs) simp_all

lemma drop_moved_twice:
  "py (movePart env0 ''monsoon'' 32 16 (movePart env0 ''monsoon'' 16 16 drop)) = 601.05076918"
  "ptype (movePart env0 ''monsoon'' 32 16 (movePart env0 ''monsoon'' 16 16 drop)) = Rain"
proof -
  let ?q = "movePart env0 ''monsoon'' 16 16 drop"
  have i: "influence env0 ?q = 0"
    by (rule influence_below) (simp add: drop_moved, simp add: env0_def)
  have "pvy (movePart env0 ''monsoon'' 32 16 ?q) =
      (pvy ?q + windY env0 ?q + 0.02 * (16 / 16)) * 0.997"
    by (rule monsoon_pvy)
  then have v: "pvy (movePart env0 ''monsoon'' 32 16 ?q) = 1.03382918"
    unfolding wind_zero(2)[OF i] drop_moved(1) by simp
  have "py (movePart env0 ''monsoon'' 32 16 ?q) =
      py ?q + pvy (movePart env0 ''monsoon'' 32 16 ?q) * (16 / 16) * pz ?q"
    by (rule movePart_fields(4))
  then show "py (movePart env0 ''monsoon'' 32 16 ?q) = 601.05076918"
    unfolding v drop_moved(2,5) by simp
  have "ptype (movePart env0 ''monsoon'' 32 16 ?q) = ptype ?q"
    by (rule movePart_fields(6))
  then show "ptype (movePart env0 ''monsoon'' 32 16 ?q) = Rain"
    unfolding drop_moved(6) .
qed

theorem rain_ripples_every_tick_witness:
  "running puddle \<and> 0 < length (parts puddle) \<and> ptype (parts puddle ! 0) = Rain
   \<and> logicalH env0 - 2
        < py (movePart env0 (mode puddle) 16 (elapsed 16 puddle) (parts puddle ! 0))
   \<and> ripples (step env0 16 puddle) =
        [\<lparr> rx = px (movePart env0 ''monsoon'' 16 16 drop), ry = 597, rr = 2.9,
           ralpha = 0.335 \<rparr>]
   \<and> parts (step env0 16 puddle) = [movePart env0 ''monsoon'' 16 16 drop]
   \<and> running (step env0 16 puddle)
   \<and> logicalH env0 - 2
        < py (movePart env0 (mode (step env0 16 puddle)) 32 (elapsed 32 (step env0 16 puddle))
               (parts (step env0 16 puddle) ! 0))
   \<and> ripples (step env0 32 (step env0 16 puddle)) =
        [\<lparr> rx = px (movePart env0 ''monsoon'' 16 16 drop), ry = 597, rr = 3.8,
           ralpha = 0.32 \<rparr>,
         \<lparr> rx = px (movePart env0 ''monsoon'' 32 16 (movePart env0 ''monsoon'' 16 16 drop)),
           ry = 597, rr = 2.9, ralpha = 0.335 \<rparr>]"
proof -
  let ?q1 = "movePart env0 ''monsoon'' 16 16 drop"
  let ?q2 = "movePart env0 ''monsoon'' 32 16 ?q1"
  let ?s1 = "step env0 16 puddle"
  have e1: "elapsed 16 puddle = 16" by (simp add: elapsed_def puddle_fields)
  have a1: "running puddle" and a2: "0 < length (parts puddle)"
    and a3: "ptype (parts puddle ! 0) = Rain"
    by (simp_all add: puddle_fields) (simp add: drop_def)
  have a4: "logicalH env0 - 2
        < py (movePart env0 (mode puddle) 16 (elapsed 16 puddle) (parts puddle ! 0))"
    by (simp add: e1 puddle_fields drop_moved env0_size)
  note t1 = rain_ripples_every_tick[OF a1 a2 a3 a4]
  have on1: "\<not> offscreen env0
      (movePart env0 (mode puddle) 16 (elapsed 16 puddle) (parts puddle ! 0))"
    using drop_onscreen by (simp add: e1 puddle_fields)
  have h1: "hits env0 ?q1" by (simp add: hits_def drop_moved env0_size)
  from t1 have "ripples ?s1 =
        filter (\<lambda>rp. 0 < ralpha rp) (map aged (ripples puddle))
        @ map (\<lambda>q. \<lparr> rx = px q, ry = logicalH env0 - 3, rr = 2.9, ralpha = 0.335 \<rparr>)
            (filter (hits env0)
               (map (movePart env0 (mode puddle) 16 (elapsed 16 puddle)) (parts puddle)))"
    by blast
  then have r1: "ripples ?s1 = [\<lparr> rx = px ?q1, ry = 597, rr = 2.9, ralpha = 0.335 \<rparr>]"
    by (simp add: e1 puddle_fields h1 env0_size)
  from t1 on1 have "parts ?s1 ! 0 =
      movePart env0 (mode puddle) 16 (elapsed 16 puddle) (parts puddle ! 0)"
    and b1: "running ?s1" by blast+
  then have n1: "parts ?s1 ! 0 = ?q1" by (simp add: e1 puddle_fields)
  have "length (parts ?s1) = 1" by (simp add: step_parts_length puddle_fields)
  then have p1: "parts ?s1 = [?q1]" using n1 by (rule singleton_nth)
  have m1: "mode ?s1 = ''monsoon''" and l1: "last_t ?s1 = 16"
    by (simp_all add: step_sched[OF a1] puddle_fields)
  have e2: "elapsed 32 ?s1 = 16" by (simp add: elapsed_def l1)
  have b2: "0 < length (parts ?s1)" and b3: "ptype (parts ?s1 ! 0) = Rain"
    by (simp_all add: p1 drop_moved)
  have b4: "logicalH env0 - 2
        < py (movePart env0 (mode ?s1) 32 (elapsed 32 ?s1) (parts ?s1 ! 0))"
    by (simp add: e2 m1 p1 drop_moved_twice env0_size)
  note t2 = rain_ripples_every_tick[OF b1 b2 b3 b4]
  have h2: "hits env0 ?q2" by (simp add: hits_def drop_moved_twice env0_size)
  from t2 have "ripples (step env0 32 ?s1) =
        filter (\<lambda>rp. 0 < ralpha rp) (map aged (ripples ?s1))
        @ map (\<lambda>q. \<lparr> rx = px q, ry = logicalH env0 - 3, rr = 2.9, ralpha = 0.335 \<rparr>)
            (filter (hits env0)
               (map (movePart env0 (mode ?s1) 32 (elapsed 32 ?s1)) (parts ?s1)))"
    by blast
  then have r2: "ripples (step env0 32 ?s1) =
        [\<lparr> rx = px ?q1, ry = 597, rr = 3.8, ralpha = 0.32 \<rparr>,
         \<lparr> rx = px ?q2, ry = 597, rr = 2.9, ralpha = 0.335 \<rparr>]"
    by (simp add: e2 m1 p1 r1 h2 env0_size aged_def)
  show ?thesis using a1 a2 a3 a4 r1 p1 b1 b4 r2 by blast
qed

section \<open>Ripples across a mode switch\<close>

lemma mem_nonempty: "a \<in> set xs \<Longrightarrow> xs \<noteq> []"
  by auto

lemma soaked_ripples: "ripples soaked \<noteq> []"
proof -
  let ?c = "createParticleEngine downpour ''monsoon'' 0"
  let ?p = "fst (newParticle downpour ''monsoon'' 0)"
  have f: "py ?p = 624" "pvy ?p = 1.3625" "pz ?p = 1.16" "ptype ?p = Rain"
    by (simp_all add: newParticle_monsoon rnd_def) (simp_all add: downpour_def env0_def)
  have i: "influence downpour ?p = 0"
    by (rule influence_below) (simp add: f, simp add: downpour_def env0_def)
  have "pvy (movePart downpour ''monsoon'' 16 16 ?p) =
      (pvy ?p + windY downpour ?p + 0.02 * (16 / 16)) * 0.997"
    by (rule monsoon_pvy)
  then have v: "pvy (movePart downpour ''monsoon'' 16 16 ?p) = 1.3783525"
    unfolding wind_zero(2)[OF i] f by simp
  have "py (movePart downpour ''monsoon'' 16 16 ?p) =
      py ?p + pvy (movePart downpour ''monsoon'' 16 16 ?p) * (16 / 16) * pz ?p"
    by (rule movePart_fields(4))
  then have y: "py (movePart downpour ''monsoon'' 16 16 ?p) = 625.5988889"
    unfolding v f by simp
  have r: "running ?c" and l: "0 < length (parts ?c)"
    by (simp_all add: create_fields create_monsoon(2))
  have e: "elapsed 16 ?c = 16" by (simp add: elapsed_def create_fields)
  have t: "ptype (parts ?c ! 0) = Rain" by (simp add: first_drop f)
  have h: "logicalH downpour - 2
      < py (movePart downpour (mode ?c) 16 (elapsed 16 ?c) (parts ?c ! 0))"
    by (simp add: e create_monsoon(3) first_drop y) (simp add: downpour_def env0_def)
  from mem_nonempty[OF step_ripple_mem[OF r l t h]] show ?thesis
    unfolding soaked_def .
qed

text \<open>
  C2, as stated, fails: \<open>setMode\<close> never assigns \<open>ripples\<close>. The engine built for the
  monsoon where \<open>Math.random\<close> returns 0.95 holds ripples after its first tick (its drops
  start below \<open>logicalH - 2\<close>), and it still holds them after \<open>setMode('spring')\<close>.
\<close>

theorem setMode_keeps_ripples_counterexample:
  "ripples soaked \<noteq> [] \<and> ripples (setMode downpour ''spring'' soaked) = ripples soaked"
  using soaked_ripples by (simp add: setMode_fields)

end
